theory Spec2Isabelle
  imports Complex_Main "HOL-Library.AList"
begin

section \<open>Python strings\<close>

text \<open>
  Python \<open>str\<close> values are modelled as \<open>string\<close> (lists of characters), for ASCII text:
  the tables below give \<open>str.isspace\<close>, \<open>str.upper\<close> and the regular-expression classes
  \<open>\\w\<close>, \<open>\\s\<close> on the code points below 128, where Python's Unicode tables agree with
  them. Outside ASCII Python knows more spaces, letters and case mappings than these
  tables, so what is proved of every text through them is stated for text that
  satisfies \<open>is_ascii\<close>.
\<close>

definition is_ascii :: "string \<Rightarrow> bool" where
  "is_ascii s = list_all (\<lambda>c. of_char c < (128 :: nat)) s"

definition py_isspace :: "char \<Rightarrow> bool" where
  "py_isspace c = (c \<in> set [CHR '' '', CHR 0x09, CHR 0x0A, CHR 0x0B, CHR 0x0C, CHR 0x0D,
                           CHR 0x1C, CHR 0x1D, CHR 0x1E, CHR 0x1F])"

definition py_strip :: "string \<Rightarrow> string" where
  "py_strip s = rev (dropWhile py_isspace (rev (dropWhile py_isspace s)))"

definition lowers :: string where
  "lowers = ''abcdefghijklmnopqrstuvwxyz''"

definition uppers :: string where
  "uppers = ''ABCDEFGHIJKLMNOPQRSTUVWXYZ''"

definition digits :: string where
  "digits = ''0123456789''"

definition upper_char :: "char \<Rightarrow> char" where
  "upper_char c = (case map_of (zip lowers uppers) c of Some u \<Rightarrow> u | None \<Rightarrow> c)"

definition py_upper :: "string \<Rightarrow> string" where
  "py_upper s = map upper_char s"

text \<open>\<open>s.startswith(sub)\<close>.\<close>

fun startswith :: "string \<Rightarrow> string \<Rightarrow> bool" where
  "startswith s [] = True"
| "startswith [] (p # ps) = False"
| "startswith (c # cs) (p # ps) = (c = p \<and> startswith cs ps)"

text \<open>\<open>sub in s\<close>: \<open>sub\<close> occurs in \<open>s\<close> as a substring.\<close>

fun py_in :: "string \<Rightarrow> string \<Rightarrow> bool" where
  "py_in sub [] = (sub = [])"
| "py_in sub (c # cs) = (startswith (c # cs) sub \<or> py_in sub cs)"

text \<open>
  \<open>s.index(sub)\<close>: the lowest position at which \<open>sub\<close> occurs as a substring of \<open>s\<close>;
  \<open>None\<close> stands for the \<open>ValueError\<close> Python raises when there is none.
\<close>

fun py_index :: "string \<Rightarrow> string \<Rightarrow> nat option" where
  "py_index [] sub = (if sub = [] then Some 0 else None)"
| "py_index (c # cs) sub =
     (if startswith (c # cs) sub then Some 0 else map_option Suc (py_index cs sub))"

subsection \<open>The regular expressions of the decision parser\<close>

text \<open>\<open>\\w\<close>: letters, digits and the underscore.\<close>

definition is_word_char :: "char \<Rightarrow> bool" where
  "is_word_char c = (c \<in> set lowers \<or> c \<in> set uppers \<or> c \<in> set digits \<or> c = CHR ''_'')"

text \<open>
  \<open>\\b\<close> holds between two neighbouring positions when exactly one of them holds a word
  character; the positions before the start and after the end of the string (\<open>None\<close>)
  count as non-word.
\<close>

definition word_boundary :: "char option \<Rightarrow> char option \<Rightarrow> bool" where
  "word_boundary a b =
     ((case a of None \<Rightarrow> False | Some c \<Rightarrow> is_word_char c) \<noteq>
      (case b of None \<Rightarrow> False | Some c \<Rightarrow> is_word_char c))"

definition char_at :: "string \<Rightarrow> nat \<Rightarrow> char option" where
  "char_at s i = (if i < length s then Some (s ! i) else None)"

text \<open>
  \<open>word_at w prev s\<close>: the pattern \<open>\\bw\\b\<close> matches at the head of \<open>s\<close>, where \<open>prev\<close> is
  the character just before \<open>s\<close> in the searched string. The word \<open>w\<close> is not empty.
\<close>

definition word_at :: "string \<Rightarrow> char option \<Rightarrow> string \<Rightarrow> bool" where
  "word_at w prev s =
     (startswith s w \<and> word_boundary prev (char_at s 0) \<and>
      word_boundary (Some (last w)) (char_at s (length w)))"

text \<open>
  \<open>word_pos w prev s\<close>: the start of the leftmost match of \<open>\\bw\\b\<close> in \<open>s\<close>, as
  \<open>re.search\<close> finds it.
\<close>

fun word_pos :: "string \<Rightarrow> char option \<Rightarrow> string \<Rightarrow> nat option" where
  "word_pos w prev [] = None"
| "word_pos w prev (c # cs) =
     (if word_at w prev (c # cs) then Some 0 else map_option Suc (word_pos w (Some c) cs))"

text \<open>\<open>bool(re.search(r"\\bw\\b", s))\<close>.\<close>

definition re_search_word :: "string \<Rightarrow> string \<Rightarrow> bool" where
  "re_search_word w s = (word_pos w None s \<noteq> None)"

text \<open>
  \<open>re.sub(r"^(YES|NO|UNCERTAIN)[.,:\\-\\s]*", "", s, flags=re.IGNORECASE)\<close>: the pattern is
  anchored at the start, so at most one match is removed; the alternatives are tried in
  order and the character class is greedy.
\<close>

definition is_separator :: "char \<Rightarrow> bool" where
  "is_separator c = (c \<in> set ''.,:-'' \<or> py_isspace c)"

definition strip_decision_prefix :: "string \<Rightarrow> string" where
  "strip_decision_prefix s =
     (if startswith (py_upper s) ''YES'' then dropWhile is_separator (drop 3 s)
      else if startswith (py_upper s) ''NO'' then dropWhile is_separator (drop 2 s)
      else if startswith (py_upper s) ''UNCERTAIN'' then dropWhile is_separator (drop 9 s)
      else s)"

section \<open>The decision parser (triage.py)\<close>

text \<open>
  \<open>_parse_decision(text)\<close> returns \<open>(decision, justification, confidence)\<close>. The
  confidence constants \<open>1.0\<close>, \<open>0.8\<close> and \<open>0.5\<close> are rationals. In the ambiguous branch both
  \<open>str.index\<close> calls are made; either raises \<open>ValueError\<close> when the substring is absent
  (\<open>None\<close> here).
\<close>

definition parse_decision :: "string \<Rightarrow> (string \<times> string \<times> rat) option" where
  "parse_decision text =
     (let clean = py_strip text;
          first_part = py_upper (take 10 clean);
          justification = py_strip (strip_decision_prefix clean)
      in if py_in ''YES'' first_part then Some (''YES'', justification, 1)
         else if py_in ''NO'' first_part then Some (''NO'', justification, 1)
         else
           (let upper = py_upper clean;
                has_yes = re_search_word ''YES'' upper;
                has_no = re_search_word ''NO'' upper
            in if has_yes \<and> \<not> has_no then Some (''YES'', justification, 8 / 10)
               else if has_no \<and> \<not> has_yes then Some (''NO'', justification, 8 / 10)
               else if has_yes \<and> has_no then
                 (case py_index upper ''YES'' of
                    None \<Rightarrow> None
                  | Some yes_pos \<Rightarrow>
                      (case py_index upper ''NO'' of
                         None \<Rightarrow> None
                       | Some no_pos \<Rightarrow>
                           Some (if yes_pos < no_pos then ''YES'' else ''NO'',
                                 justification, 1 / 2)))
               else Some (''UNCERTAIN'', justification, 1 / 2)))"

definition parsed_decision :: "string \<Rightarrow> string option" where
  "parsed_decision text = map_option fst (parse_decision text)"

definition parsed_confidence :: "string \<Rightarrow> rat option" where
  "parsed_confidence text = map_option (snd \<circ> snd) (parse_decision text)"

section \<open>The provider gateway (utils.py)\<close>

text \<open>
  The exceptions that can leave \<open>_call_provider\<close>, the file operations and \<open>str.index\<close>.
  \<open>ConnectionError\<close> is \<open>requests.exceptions.ConnectionError\<close>, which is neither a
  \<open>Timeout\<close> nor an \<open>HTTPError\<close>; \<open>MalformedResponse\<close> stands for the \<open>ValueError\<close>,
  \<open>KeyError\<close>, \<open>IndexError\<close> or \<open>AttributeError\<close> raised while reading a reply whose body
  is not a chat completion.
\<close>

datatype error =
    RateLimitError
  | Timeout
  | HTTPError
  | ConnectionError
  | MalformedResponse
  | FileNotFoundError
  | FileExistsError
  | NotADirectoryError
  | IsADirectoryError
  | ValueError

text \<open>
  What the network gives back to one \<open>requests.post\<close>: no reply within the timeout, a
  failed connection, or a reply with its status code, its body (when it is a chat
  completion: \<open>choices[0].message.content\<close> and the two optional usage counters) and the
  seconds that passed between the two \<open>time.time()\<close> readings.
\<close>

record completion =
  content :: string
  prompt_tokens :: "int option"
  completion_tokens :: "int option"

datatype exchange =
    TimedOut
  | ConnectionFailed
  | Reply int "completion option" rat

record provider_result =
  text_of :: string
  tokens_input :: int
  tokens_output :: int
  latency_ms :: rat

definition call_provider :: "exchange \<Rightarrow> error + provider_result" where
  "call_provider x =
     (case x of
        TimedOut \<Rightarrow> Inl Timeout
      | ConnectionFailed \<Rightarrow> Inl ConnectionError
      | Reply status_code body elapsed \<Rightarrow>
          if status_code = 429 then Inl RateLimitError
          else if 400 \<le> status_code \<and> status_code < 600 then Inl HTTPError
          else (case body of
                  None \<Rightarrow> Inl MalformedResponse
                | Some data \<Rightarrow>
                    Inr \<lparr>text_of = py_strip (content data),
                         tokens_input = (case prompt_tokens data of None \<Rightarrow> 0 | Some n \<Rightarrow> n),
                         tokens_output = (case completion_tokens data of None \<Rightarrow> 0 | Some n \<Rightarrow> n),
                         latency_ms = elapsed * 1000\<rparr>))"

section \<open>The audit logger (audit_logger.py)\<close>

text \<open>
  An audit record is the Python dict that \<open>AuditLogger.log\<close> builds: an association list
  from field names to values, in insertion order. \<open>dict.update\<close> overwrites the value of a
  key that is present and appends a new key.
\<close>

datatype json = JStr string | JInt int | JNum rat

type_synonym audit_record = "(string \<times> json) list"

definition dict_update :: "audit_record \<Rightarrow> (string \<times> json) list \<Rightarrow> audit_record" where
  "dict_update d extra = foldl (\<lambda>acc kv. AList.update (fst kv) (snd kv) acc) d extra"

text \<open>
  \<open>round(x, 2)\<close> on a float, with floats modelled as rationals: the nearest multiple of
  \<open>1/100\<close>, a tie going to the even one.
\<close>

definition round_half_even :: "rat \<Rightarrow> int" where
  "round_half_even y =
     (let f = \<lfloor>y\<rfloor>; d = y - of_int f
      in if d < 1 / 2 then f
         else if 1 / 2 < d then f + 1
         else if even f then f else f + 1)"

definition py_round2 :: "rat \<Rightarrow> rat" where
  "py_round2 x = of_int (round_half_even (x * 100)) / 100"

text \<open>
  The file system: the set of directories and the content of every regular file, a list
  of audit records (one per line). Paths are compared as written, after removing
  trailing slashes; the current directory (the empty parent, or \<open>.\<close>) and the root always
  exist. Paths are taken without \<open>.\<close> or \<open>..\<close> components in the middle and without
  repeated slashes, and every directory may be written to.
\<close>

record filesystem =
  dirs :: "string set"
  files :: "string \<rightharpoonup> audit_record list"

subsection \<open>Paths and directories (the Python library, POSIX)\<close>

definition rstrip_slash :: "string \<Rightarrow> string" where
  "rstrip_slash p = rev (dropWhile (\<lambda>c. c = CHR ''/'') (rev p))"

text \<open>
  \<open>posixpath.split(p)\<close>: the tail is what follows the last slash; the head is what precedes
  it, without its trailing slashes unless it consists of slashes only.
\<close>

definition posix_split :: "string \<Rightarrow> string \<times> string" where
  "posix_split p =
     (let tail = rev (takeWhile (\<lambda>c. c \<noteq> CHR ''/'') (rev p));
          head = take (length p - length tail) p
      in (if head \<noteq> [] \<and> head \<noteq> replicate (length head) (CHR ''/'') then rstrip_slash head
          else head,
          tail))"

definition dirname :: "string \<Rightarrow> string" where
  "dirname p = fst (posix_split p)"

definition isdir :: "filesystem \<Rightarrow> string \<Rightarrow> bool" where
  "isdir fs p =
     (p \<noteq> [] \<and> (rstrip_slash p = [] \<or> rstrip_slash p = ''.'' \<or> rstrip_slash p \<in> dirs fs))"

definition exists :: "filesystem \<Rightarrow> string \<Rightarrow> bool" where
  "exists fs p = (isdir fs p \<or> p \<in> dom (files fs))"

text \<open>
  What the operating system answers when an entry is to be created at \<open>p\<close> and the
  directory that should hold it is missing or is a regular file.
\<close>

definition parent_error :: "filesystem \<Rightarrow> string \<Rightarrow> error option" where
  "parent_error fs p =
     (let d = dirname (rstrip_slash p)
      in if d = [] \<or> isdir fs d then None
         else if d \<in> dom (files fs) then Some NotADirectoryError
         else Some FileNotFoundError)"

text \<open>
  File operations return the error raised, if any, with the file system as they leave it.
  \<open>os.mkdir(name)\<close> fails on the empty path, on an existing entry and on a missing parent.
\<close>

definition mkdir :: "filesystem \<Rightarrow> string \<Rightarrow> error option \<times> filesystem" where
  "mkdir fs name =
     (if name = [] then (Some FileNotFoundError, fs)
      else if exists fs name \<or> rstrip_slash name \<in> dom (files fs)
      then (Some FileExistsError, fs)
      else (case parent_error fs name of
              Some e \<Rightarrow> (Some e, fs)
            | None \<Rightarrow> (None, fs\<lparr>dirs := insert (rstrip_slash name) (dirs fs)\<rparr>)))"

text \<open>
  \<open>os.makedirs(name, exist_ok=exist_ok)\<close>. The pair \<open>makedirs_split name\<close> is \<open>(head, tail)\<close>
  as the library computes it: \<open>path.split(name)\<close>, split once more when the tail is empty.
\<close>

definition makedirs_split :: "string \<Rightarrow> string \<times> string" where
  "makedirs_split name =
     (if snd (posix_split name) = [] then posix_split (fst (posix_split name))
      else posix_split name)"

definition makedirs_leaf :: "filesystem \<Rightarrow> string \<Rightarrow> bool \<Rightarrow> error option \<times> filesystem" where
  "makedirs_leaf fs name exist_ok =
     (case mkdir fs name of
        (None, fs') \<Rightarrow> (None, fs')
      | (Some e, fs') \<Rightarrow> if \<not> exist_ok \<or> \<not> isdir fs' name then (Some e, fs') else (None, fs'))"

lemma length_rstrip_slash: "length (rstrip_slash p) \<le> length p"
  unfolding rstrip_slash_def
  by (metis length_dropWhile_le length_rev)

lemma length_posix_split:
  "length (fst (posix_split p)) + length (snd (posix_split p)) \<le> length p"
proof -
  let ?tail = "rev (takeWhile (\<lambda>c. c \<noteq> CHR ''/'') (rev p))"
  let ?head = "take (length p - length ?tail) p"
  have t: "length ?tail \<le> length p"
    by (metis length_rev length_takeWhile_le)
  have h: "length ?head = length p - length ?tail"
    by simp
  have "length (fst (posix_split p)) \<le> length ?head"
    using length_rstrip_slash [of ?head] by (simp add: posix_split_def Let_def)
  moreover have "snd (posix_split p) = ?tail"
    by (simp add: posix_split_def Let_def)
  ultimately show ?thesis using t h by simp
qed

lemma posix_split_shorter:
  assumes "snd (posix_split p) \<noteq> []"
  shows "length (fst (posix_split p)) < length p"
proof -
  have "0 < length (snd (posix_split p))"
    using assms by (cases "snd (posix_split p)") simp_all
  with length_posix_split [of p] show ?thesis
    by arith
qed

lemma makedirs_split_shorter:
  assumes "snd (makedirs_split name) \<noteq> []"
  shows "length (fst (makedirs_split name)) < length name"
proof (cases "snd (posix_split name) = []")
  case True
  then have eq: "makedirs_split name = posix_split (fst (posix_split name))"
    by (simp add: makedirs_split_def)
  have outer: "length (fst (posix_split name)) \<le> length name"
    using length_posix_split [of name] by arith
  have "snd (posix_split (fst (posix_split name))) \<noteq> []"
    using assms unfolding eq .
  then have "length (fst (posix_split (fst (posix_split name)))) < length (fst (posix_split name))"
    by (rule posix_split_shorter)
  with outer show ?thesis
    unfolding eq by arith
next
  case False
  then have eq: "makedirs_split name = posix_split name"
    by (simp add: makedirs_split_def)
  show ?thesis
    using assms unfolding eq by (rule posix_split_shorter)
qed

function makedirs :: "filesystem \<Rightarrow> string \<Rightarrow> bool \<Rightarrow> error option \<times> filesystem" where
  "makedirs fs name exist_ok =
     (if fst (makedirs_split name) \<noteq> [] \<and> snd (makedirs_split name) \<noteq> [] \<and>
         \<not> exists fs (fst (makedirs_split name))
      then
        (case makedirs fs (fst (makedirs_split name)) exist_ok of
           (r, fs') \<Rightarrow>
             if r \<noteq> None \<and> r \<noteq> Some FileExistsError then (r, fs')
             else if snd (makedirs_split name) = ''.'' then (None, fs')
             else makedirs_leaf fs' name exist_ok)
      else makedirs_leaf fs name exist_ok)"
  by pat_completeness auto
termination
  by (relation "measure (\<lambda>(fs, name, exist_ok). length name)")
     (auto simp: makedirs_split_shorter)

declare makedirs.simps [simp del]

text \<open>
  \<open>open(p, "a")\<close>: an existing regular file is opened as it is, with its content; a missing
  one is created empty in an existing directory.
\<close>

definition open_append :: "filesystem \<Rightarrow> string \<Rightarrow> error option \<times> filesystem" where
  "open_append fs p =
     (if p = [] then (Some FileNotFoundError, fs)
      else if isdir fs p then (Some IsADirectoryError, fs)
      else if p \<in> dom (files fs) then (None, fs)
      else (case parent_error fs p of
              Some e \<Rightarrow> (Some e, fs)
            | None \<Rightarrow>
                if last p = CHR ''/'' then (Some IsADirectoryError, fs)
                else (None, fs\<lparr>files := (files fs)(p \<mapsto> [])\<rparr>)))"

subsection \<open>AuditLogger\<close>

text \<open>
  The logger object keeps its path; its file handle is the file at that path.
  \<open>__init__\<close> runs \<open>os.makedirs(os.path.dirname(output_path), exist_ok=True)\<close> and then
  \<open>open(output_path, "a")\<close>.
\<close>

record AuditLogger =
  path :: string

definition AuditLogger_init :: "filesystem \<Rightarrow> string \<Rightarrow> (error + AuditLogger) \<times> filesystem" where
  "AuditLogger_init fs output_path =
     (case makedirs fs (dirname output_path) True of
        (Some e, fs1) \<Rightarrow> (Inl e, fs1)
      | (None, fs1) \<Rightarrow>
          (case open_append fs1 output_path of
             (Some e, fs2) \<Rightarrow> (Inl e, fs2)
           | (None, fs2) \<Rightarrow> (Inr \<lparr>path = output_path\<rparr>, fs2)))"

text \<open>
  \<open>AuditLogger.log\<close>: the record is built, updated with \<open>extra\<close> when that is given and
  not empty, and written as one more line at the end of the file. The first argument is
  the reading of \<open>datetime.now(timezone.utc).isoformat()\<close>.
\<close>

definition log_record ::
  "string \<Rightarrow> string \<Rightarrow> string \<Rightarrow> string \<Rightarrow> rat \<Rightarrow> string \<Rightarrow> string \<Rightarrow> int \<Rightarrow> int \<Rightarrow> rat \<Rightarrow>
   string \<Rightarrow> (string \<times> json) list option \<Rightarrow> audit_record" where
  "log_record now mod_name article_id decision confidence prompt_hash provider tokens_in
     tokens_out latency raw_response extra =
     (let record =
            [(''timestamp'', JStr now),
             (''module'', JStr mod_name),
             (''article_id'', JStr article_id),
             (''decision'', JStr decision),
             (''confidence'', JNum confidence),
             (''prompt_hash'', JStr prompt_hash),
             (''provider'', JStr provider),
             (''tokens_in'', JInt tokens_in),
             (''tokens_out'', JInt tokens_out),
             (''latency_ms'', JNum (py_round2 latency)),
             (''raw_response'', JStr raw_response)]
      in case extra of
           None \<Rightarrow> record
         | Some e \<Rightarrow> if e = [] then record else dict_update record e)"

definition file_content :: "filesystem \<Rightarrow> string \<Rightarrow> audit_record list" where
  "file_content fs p = (case files fs p of None \<Rightarrow> [] | Some lines \<Rightarrow> lines)"

definition AuditLogger_log :: "AuditLogger \<Rightarrow> audit_record \<Rightarrow> filesystem \<Rightarrow> filesystem" where
  "AuditLogger_log logger record fs =
     fs\<lparr>files := (files fs)(path logger \<mapsto> file_content fs (path logger) @ [record])\<rparr>"

section \<open>The fallback controller (utils.py)\<close>

record inference_params =
  temperature :: rat
  top_p :: rat
  max_tokens :: int

text \<open>
  The configuration as \<open>call_llm\<close> reads it: \<open>config["inference"][stage]\<close>,
  \<open>config["model"]["model_name"]\<close> and \<open>config["model"]["fallback_model"]\<close>. It is taken to
  hold the section of every stage that is asked for.
\<close>

record config =
  inference :: "string \<Rightarrow> inference_params"
  model_name :: string
  fallback_model :: string

text \<open>The arguments of \<open>call_llm\<close>; \<open>decision_label\<close> is \<open>None\<close> by default.\<close>

record llm_call =
  prompt :: string
  config_of :: config
  stage :: string
  audit_logger :: AuditLogger
  article_id :: string
  decision_label :: "string option"

text \<open>
  What the outside world answers during one \<open>call_llm\<close>: the reply to the first request
  to Groq, to the retry, and to the request to Together AI (each is consulted only if
  that request is made), the reading of the clock when the record is logged, and the
  SHA-256 digest in hexadecimal.
\<close>

record world =
  groq_first :: exchange
  groq_retry :: exchange
  together :: exchange
  now :: string
  sha256_hexdigest :: "string \<Rightarrow> string"

text \<open>
  The process: the module-level counter \<open>_groq_consecutive_failures\<close> (0 when the module
  is loaded) and the file system.
\<close>

record process =
  groq_consecutive_failures :: int
  fs :: filesystem

definition initial_process :: "filesystem \<Rightarrow> process" where
  "initial_process f = \<lparr>groq_consecutive_failures = 0, fs = f\<rparr>"

definition GROQ_SKIP_THRESHOLD :: int where
  "GROQ_SKIP_THRESHOLD = 3"

definition groq_url :: string where
  "groq_url = ''https://api.groq.com/openai/v1/chat/completions''"

definition together_url :: string where
  "together_url = ''https://api.together.xyz/v1/chat/completions''"

definition hash_prompt :: "(string \<Rightarrow> string) \<Rightarrow> string \<Rightarrow> string" where
  "hash_prompt hexdigest p = take 16 (hexdigest p)"

text \<open>
  What a call does besides changing the process: each request made (URL, model,
  parameters, and the exception it ended with, if any) and each \<open>time.sleep\<close>, in order.
\<close>

datatype event =
    Called string string inference_params "error option"
  | Slept rat

text \<open>
  The first part of \<open>call_llm\<close>, up to the comment \<open>Fallback: Together AI\<close>. It yields the
  exception that leaves \<open>call_llm\<close> there, or else the value of \<open>result\<close> (\<open>None\<close> or the
  reply of Groq), together with the new value of the counter and the events. The
  first \<open>try\<close> catches \<open>RateLimitError\<close>, \<open>Timeout\<close> and \<open>HTTPError\<close>; the \<open>try\<close> around the
  retry catches every \<open>Exception\<close>.
\<close>

definition try_groq ::
  "world \<Rightarrow> config \<Rightarrow> inference_params \<Rightarrow> int \<Rightarrow>
   (error + provider_result option) \<times> int \<times> event list" where
  "try_groq w cfg params n =
     (let skip_groq = (n \<ge> GROQ_SKIP_THRESHOLD)
      in if skip_groq then (Inr None, n, [])
         else
           (case call_provider (groq_first w) of
              Inr result \<Rightarrow>
                (Inr (Some result), 0, [Called groq_url (model_name cfg) params None])
            | Inl e \<Rightarrow>
                if e = RateLimitError then
                  (if n + 1 < GROQ_SKIP_THRESHOLD then
                     (case call_provider (groq_retry w) of
                        Inr result \<Rightarrow>
                          (Inr (Some result), 0,
                           [Called groq_url (model_name cfg) params (Some e), Slept 60,
                            Called groq_url (model_name cfg) params None])
                      | Inl e2 \<Rightarrow>
                          (Inr None, n + 1 + 1,
                           [Called groq_url (model_name cfg) params (Some e), Slept 60,
                            Called groq_url (model_name cfg) params (Some e2)]))
                   else (Inr None, n + 1, [Called groq_url (model_name cfg) params (Some e)]))
                else if e = Timeout \<or> e = HTTPError then
                  (Inr None, n, [Called groq_url (model_name cfg) params (Some e)])
                else (Inl e, n, [Called groq_url (model_name cfg) params (Some e)])))"

text \<open>The exceptions that the first \<open>try\<close> of \<open>call_llm\<close> catches.\<close>

definition caught_first :: "error \<Rightarrow> bool" where
  "caught_first e = (e = RateLimitError \<or> e = Timeout \<or> e = HTTPError)"

text \<open>The dict \<open>call_llm\<close> returns: the provider's result with the key \<open>provider\<close> added.\<close>

record llm_result = provider_result +
  provider :: string

definition with_provider :: "provider_result \<Rightarrow> string \<Rightarrow> llm_result" where
  "with_provider result prov =
     \<lparr>text_of = text_of result, tokens_input = tokens_input result,
      tokens_output = tokens_output result, latency_ms = latency_ms result,
      provider = prov\<rparr>"

text \<open>Python's \<open>a or b\<close> on an optional string: \<open>None\<close> and the empty string are false.\<close>

definition py_or :: "string option \<Rightarrow> string \<Rightarrow> string" where
  "py_or a b = (case a of None \<Rightarrow> b | Some s \<Rightarrow> if s = [] then b else s)"

text \<open>
  The last part of \<open>call_llm\<close>, from the comment \<open>Log\<close>: the audit record is written, the
  provider is added to the result, and a result of Groq is followed by a sleep of 2.1
  seconds.
\<close>

definition log_and_return ::
  "world \<Rightarrow> llm_call \<Rightarrow> string \<Rightarrow> provider_result \<Rightarrow> process \<Rightarrow> event list \<Rightarrow>
   (error + llm_result) \<times> process \<times> event list" where
  "log_and_return w a prov result st ev =
     (let record =
            log_record (now w) (stage a) (article_id a)
              (py_or (decision_label a) (take 200 (text_of result))) 1
              (hash_prompt (sha256_hexdigest w) (prompt a)) prov
              (tokens_input result) (tokens_output result) (latency_ms result)
              (text_of result) None
      in (Inr (with_provider result prov),
          st\<lparr>fs := AuditLogger_log (audit_logger a) record (fs st)\<rparr>,
          if prov = ''groq'' then ev @ [Slept (21 / 10)] else ev))"

definition call_llm ::
  "world \<Rightarrow> llm_call \<Rightarrow> process \<Rightarrow> (error + llm_result) \<times> process \<times> event list" where
  "call_llm w a st =
     (let params = inference (config_of a) (stage a)
      in case try_groq w (config_of a) params (groq_consecutive_failures st) of
           (Inl e, n, ev) \<Rightarrow> (Inl e, st\<lparr>groq_consecutive_failures := n\<rparr>, ev)
         | (Inr (Some result), n, ev) \<Rightarrow>
             log_and_return w a ''groq'' result (st\<lparr>groq_consecutive_failures := n\<rparr>) ev
         | (Inr None, n, ev) \<Rightarrow>
             (case call_provider (together w) of
                Inl e \<Rightarrow>
                  (Inl e, st\<lparr>groq_consecutive_failures := n\<rparr>,
                   ev @ [Called together_url (fallback_model (config_of a)) params (Some e)])
              | Inr result \<Rightarrow>
                  log_and_return w a ''together'' result
                    (st\<lparr>groq_consecutive_failures := n\<rparr>)
                    (ev @ [Called together_url (fallback_model (config_of a)) params None])))"

text \<open>
  A run of the process: one \<open>call_llm\<close> after the other, each with its own arguments and
  its own answers of the world; the process goes on after a call that raised (the
  counter survives in the module).
\<close>

fun run_calls :: "(world \<times> llm_call) list \<Rightarrow> process \<Rightarrow> process \<times> event list" where
  "run_calls [] st = (st, [])"
| "run_calls (c # cs) st =
     (case call_llm (fst c) (snd c) st of
        (r, st1, ev) \<Rightarrow> (case run_calls cs st1 of (st2, evs) \<Rightarrow> (st2, ev @ evs)))"

text \<open>The requests of a trace that went to Groq, and those among them of a given outcome.\<close>

fun to_groq :: "event \<Rightarrow> bool" where
  "to_groq (Called url m p r) = (url = groq_url)"
| "to_groq (Slept d) = False"

fun groq_outcome :: "error option \<Rightarrow> event \<Rightarrow> bool" where
  "groq_outcome x (Called url m p r) = (url = groq_url \<and> r = x)"
| "groq_outcome x (Slept d) = False"

section \<open>Triage of one article (triage.py)\<close>

text \<open>
  \<open>triage_article\<close> builds the prompt with \<open>load_prompt\<close> (which reads a template file and
  may raise), calls \<open>call_llm\<close> for the stage \<open>triage\<close> without a decision label, and only
  then parses the text of the result. \<open>load_prompt\<close> is a parameter, applied to the name
  of the template and the keyword arguments; \<open>now2\<close> is the second reading of the clock.
  The result is the dict the function returns.
\<close>

definition criteria_text :: "string list \<Rightarrow> string" where
  "criteria_text criteria =
     (case map (\<lambda>c. ''- '' @ c) criteria of
        [] \<Rightarrow> []
      | l # ls \<Rightarrow> foldl (\<lambda>acc x. acc @ [CHR 0x0A] @ x) l ls)"

definition triage_article ::
  "(string \<Rightarrow> (string \<times> string) list \<Rightarrow> error + string) \<Rightarrow> world \<Rightarrow> string \<Rightarrow>
   string \<Rightarrow> string \<Rightarrow> string \<Rightarrow> string list \<Rightarrow> config \<Rightarrow> AuditLogger \<Rightarrow> process \<Rightarrow>
   (error + (string \<times> json) list) \<times> process \<times> event list" where
  "triage_article load_prompt w now2 title abstract aid criteria cfg logger st =
     (case load_prompt ''triage''
             [(''criteria'', criteria_text criteria), (''title'', title),
              (''abstract'', abstract)] of
        Inl e \<Rightarrow> (Inl e, st, [])
      | Inr p \<Rightarrow>
          (case call_llm w
                  \<lparr>prompt = p, config_of = cfg, stage = ''triage'', audit_logger = logger,
                   article_id = aid, decision_label = None\<rparr> st of
             (Inl e, st1, ev) \<Rightarrow> (Inl e, st1, ev)
           | (Inr response, st1, ev) \<Rightarrow>
               (case parse_decision (text_of response) of
                  None \<Rightarrow> (Inl ValueError, st1, ev)
                | Some (decision, justification, confidence) \<Rightarrow>
                    (Inr [(''article_id'', JStr aid),
                          (''decision'', JStr decision),
                          (''justification'', JStr justification),
                          (''confidence'', JNum confidence),
                          (''tokens_used'',
                           JInt (tokens_input response + tokens_output response)),
                          (''latency_ms'', JNum (latency_ms response)),
                          (''provider'', JStr (provider response)),
                          (''timestamp'', JStr now2)],
                     st1, ev))))"

section \<open>Example inputs\<close>

definition example_params :: inference_params where
  "example_params = \<lparr>temperature = 0, top_p = 1, max_tokens = 512\<rparr>"

definition example_config :: config where
  "example_config =
     \<lparr>inference = (\<lambda>s. example_params), model_name = ''llama-3.3-70b-versatile'',
      fallback_model = ''meta-llama/Llama-3.3-70B-Instruct-Turbo''\<rparr>"

definition example_logger :: AuditLogger where
  "example_logger = \<lparr>path = ''outputs/audit_log.jsonl''\<rparr>"

definition example_call :: "string option \<Rightarrow> llm_call" where
  "example_call label =
     \<lparr>prompt = ''Is the study relevant?'', config_of = example_config, stage = ''triage'',
      audit_logger = example_logger, article_id = ''A1'', decision_label = label\<rparr>"

definition ok_reply :: "string \<Rightarrow> exchange" where
  "ok_reply t =
     Reply 200 (Some \<lparr>content = t, prompt_tokens = Some 120, completion_tokens = Some 8\<rparr>)
       (1 / 4)"

definition rate_limited :: exchange where
  "rate_limited = Reply 429 None (1 / 10)"

definition example_world :: "exchange \<Rightarrow> exchange \<Rightarrow> exchange \<Rightarrow> world" where
  "example_world a b c =
     \<lparr>groq_first = a, groq_retry = b, together = c, now = ''2025-01-01T00:00:00+00:00'',
      sha256_hexdigest = (\<lambda>p. replicate 64 (CHR ''0''))\<rparr>"

definition empty_fs :: filesystem where
  "empty_fs = \<lparr>dirs = {}, files = Map.empty\<rparr>"

text \<open>
  Two calls in a row in which Groq answers every request with status 429: the first call
  is rate-limited at the first attempt and at the retry, the second at its only attempt.
\<close>

definition three_rate_limits :: "(world \<times> llm_call) list" where
  "three_rate_limits =
     [(example_world rate_limited rate_limited (ok_reply ''YES''), example_call None),
      (example_world rate_limited rate_limited (ok_reply ''NO''), example_call None)]"

text \<open>A reply that took 1.234567 seconds, and a prompt loader that always finds its template.\<close>

definition slow_reply :: "string \<Rightarrow> exchange" where
  "slow_reply t =
     Reply 200 (Some \<lparr>content = t, prompt_tokens = Some 120, completion_tokens = None\<rparr>)
       (1234567 / 1000000)"

definition example_load_prompt :: "string \<Rightarrow> (string \<times> string) list \<Rightarrow> error + string" where
  "example_load_prompt name kwargs = Inr ''Is the study relevant?''"

section \<open>Properties of the decision parser\<close>

lemma startswith_py_index: "startswith s w \<Longrightarrow> py_index s w = Some 0"
  by (cases s; cases w) auto

lemma word_pos_py_index: "word_pos w prev s = Some i \<Longrightarrow> \<exists>j. py_index s w = Some j \<and> j \<le> i"
proof (induction s arbitrary: prev i)
  case Nil
  then show ?case by simp
next
  case (Cons c cs)
  show ?case
  proof (cases "startswith (c # cs) w")
    case True
    then show ?thesis by simp
  next
    case False
    then have "\<not> word_at w prev (c # cs)" by (simp add: word_at_def)
    with Cons.prems obtain k where k: "word_pos w (Some c) cs = Some k" "i = Suc k"
      by auto
    from Cons.IH [OF k(1)] obtain j where "py_index cs w = Some j" "j \<le> k" by blast
    with False k show ?thesis by simp
  qed
qed

lemma re_search_word_py_index:
  assumes "re_search_word w s"
  obtains j where "py_index s w = Some j"
  using assms word_pos_py_index [of w None s] by (auto simp: re_search_word_def)

lemma parse_decision_total: "parse_decision text \<noteq> None"
proof (cases "re_search_word ''YES'' (py_upper (py_strip text)) \<and>
              re_search_word ''NO'' (py_upper (py_strip text))")
  case True
  obtain y where y: "py_index (py_upper (py_strip text)) ''YES'' = Some y"
    using True re_search_word_py_index by blast
  obtain n where n: "py_index (py_upper (py_strip text)) ''NO'' = Some n"
    using True re_search_word_py_index by blast
  show ?thesis
    using True y n by (simp add: parse_decision_def Let_def del: not_None_eq)
next
  case False
  then show ?thesis
    by (simp add: parse_decision_def Let_def del: not_None_eq)
qed

text \<open>
  Claim C7, as amended. An ASCII response whose first ten characters (stripped, in upper
  case) contain neither \<open>YES\<close> nor \<open>NO\<close>, and which contains \<open>NO\<close> but not \<open>YES\<close> as a
  standalone word, is decided \<open>NO\<close> with confidence \<open>0.8\<close>.
\<close>

theorem parse_decision_only_no:
  assumes "is_ascii text"
    and "\<not> py_in ''YES'' (py_upper (take 10 (py_strip text)))"
    and "\<not> py_in ''NO'' (py_upper (take 10 (py_strip text)))"
    and "re_search_word ''NO'' (py_upper (py_strip text))"
    and "\<not> re_search_word ''YES'' (py_upper (py_strip text))"
  shows "parsed_decision text = Some ''NO'' \<and> parsed_confidence text = Some (8 / 10)"
  using assms by (simp add: parsed_decision_def parsed_confidence_def parse_decision_def Let_def)

theorem parse_decision_only_no_witness:
  "is_ascii ''The answer is: no, it lacks a prototype'' \<and>
   \<not> py_in ''YES'' (py_upper (take 10 (py_strip ''The answer is: no, it lacks a prototype''))) \<and>
   \<not> py_in ''NO'' (py_upper (take 10 (py_strip ''The answer is: no, it lacks a prototype''))) \<and>
   re_search_word ''NO'' (py_upper (py_strip ''The answer is: no, it lacks a prototype'')) \<and>
   \<not> re_search_word ''YES'' (py_upper (py_strip ''The answer is: no, it lacks a prototype'')) \<and>
   parsed_decision ''The answer is: no, it lacks a prototype'' = Some ''NO'' \<and>
   parsed_confidence ''The answer is: no, it lacks a prototype'' = Some (8 / 10)"
proof -
  have h0: "is_ascii ''The answer is: no, it lacks a prototype''"
    by code_simp
  have h1: "\<not> py_in ''YES'' (py_upper (take 10 (py_strip ''The answer is: no, it lacks a prototype'')))"
    by code_simp
  have h2: "\<not> py_in ''NO'' (py_upper (take 10 (py_strip ''The answer is: no, it lacks a prototype'')))"
    by code_simp
  have h3: "re_search_word ''NO'' (py_upper (py_strip ''The answer is: no, it lacks a prototype''))"
    by code_simp
  have h4: "\<not> re_search_word ''YES'' (py_upper (py_strip ''The answer is: no, it lacks a prototype''))"
    by code_simp
  show ?thesis
    using h0 h1 h2 h3 h4 parse_decision_only_no [OF h0 h1 h2 h3 h4] by simp
qed

text \<open>
  Claim C7, as stated, fails when the word stands in the first ten characters: the
  response \<open>NO. The study lacks a working prototype.\<close> contains \<open>NO\<close> and not \<open>YES\<close> as a
  standalone word, and is decided \<open>NO\<close> with confidence \<open>1.0\<close>, not \<open>0.8\<close>.
\<close>

theorem only_no_prefix_counterexample:
  "re_search_word ''NO'' (py_upper (py_strip ''NO. The study lacks a working prototype.'')) \<and>
   \<not> re_search_word ''YES'' (py_upper (py_strip ''NO. The study lacks a working prototype.'')) \<and>
   parsed_decision ''NO. The study lacks a working prototype.'' = Some ''NO'' \<and>
   parsed_confidence ''NO. The study lacks a working prototype.'' = Some 1 \<and>
   parsed_confidence ''NO. The study lacks a working prototype.'' \<noteq> Some (8 / 10)"
  by code_simp

text \<open>
  Claim C3 at the response \<open>Relevance is not clear. YES if prototypes count, otherwise NO.\<close>:
  its first ten characters contain neither word, the first standalone \<open>YES\<close> is at
  position 24 and the first standalone \<open>NO\<close> at position 59, yet the decision is \<open>NO\<close>
  (with confidence \<open>0.5\<close>), because \<open>str.index\<close> finds \<open>NO\<close> inside \<open>NOT\<close> at position 13.
\<close>

theorem ambiguous_substring_position:
  "\<not> py_in ''YES'' (py_upper (take 10 (py_strip ''Relevance is not clear. YES if prototypes count, otherwise NO.''))) \<and>
   \<not> py_in ''NO'' (py_upper (take 10 (py_strip ''Relevance is not clear. YES if prototypes count, otherwise NO.''))) \<and>
   word_pos ''YES'' None (py_upper (py_strip ''Relevance is not clear. YES if prototypes count, otherwise NO.'')) = Some 24 \<and>
   word_pos ''NO'' None (py_upper (py_strip ''Relevance is not clear. YES if prototypes count, otherwise NO.'')) = Some 59 \<and>
   py_index (py_upper (py_strip ''Relevance is not clear. YES if prototypes count, otherwise NO.'')) ''NO'' = Some 13 \<and>
   parsed_decision ''Relevance is not clear. YES if prototypes count, otherwise NO.'' = Some ''NO'' \<and>
   parsed_confidence ''Relevance is not clear. YES if prototypes count, otherwise NO.'' = Some (1 / 2)"
  by code_simp

section \<open>Properties of the fallback controller\<close>

lemma groq_url_neq_together_url: "groq_url \<noteq> together_url"
  by (simp add: groq_url_def together_url_def)

lemma try_groq_skip:
  "GROQ_SKIP_THRESHOLD \<le> n \<Longrightarrow> try_groq w cfg p n = (Inr None, n, [])"
  by (simp add: try_groq_def)

lemma try_groq_cases:
  assumes "try_groq w cfg p n = (r, n', ev)"
  obtains
    (skip) "GROQ_SKIP_THRESHOLD \<le> n" "r = Inr None" "n' = n" "ev = []"
  | (first_ok) res where "n < GROQ_SKIP_THRESHOLD" "call_provider (groq_first w) = Inr res"
      "r = Inr (Some res)" "n' = 0" "ev = [Called groq_url (model_name cfg) p None]"
  | (retry_ok) res where "n + 1 < GROQ_SKIP_THRESHOLD"
      "call_provider (groq_first w) = Inl RateLimitError"
      "call_provider (groq_retry w) = Inr res" "r = Inr (Some res)" "n' = 0"
      "ev = [Called groq_url (model_name cfg) p (Some RateLimitError), Slept 60,
             Called groq_url (model_name cfg) p None]"
  | (retry_failed) e2 where "n + 1 < GROQ_SKIP_THRESHOLD"
      "call_provider (groq_first w) = Inl RateLimitError"
      "call_provider (groq_retry w) = Inl e2" "r = Inr None" "n' = n + 2"
      "ev = [Called groq_url (model_name cfg) p (Some RateLimitError), Slept 60,
             Called groq_url (model_name cfg) p (Some e2)]"
  | (no_retry) "n < GROQ_SKIP_THRESHOLD" "\<not> n + 1 < GROQ_SKIP_THRESHOLD"
      "call_provider (groq_first w) = Inl RateLimitError" "r = Inr None" "n' = n + 1"
      "ev = [Called groq_url (model_name cfg) p (Some RateLimitError)]"
  | (unavailable) e where "n < GROQ_SKIP_THRESHOLD" "call_provider (groq_first w) = Inl e"
      "e = Timeout \<or> e = HTTPError" "r = Inr None" "n' = n"
      "ev = [Called groq_url (model_name cfg) p (Some e)]"
  | (uncaught) e where "n < GROQ_SKIP_THRESHOLD" "call_provider (groq_first w) = Inl e"
      "e \<noteq> RateLimitError" "e \<noteq> Timeout" "e \<noteq> HTTPError" "r = Inl e" "n' = n"
      "ev = [Called groq_url (model_name cfg) p (Some e)]"
  using assms unfolding try_groq_def Let_def
  by (auto split: if_splits sum.splits)


lemma call_llm_counter:
  "groq_consecutive_failures (fst (snd (call_llm w a st))) =
   fst (snd (try_groq w (config_of a) (inference (config_of a) (stage a))
               (groq_consecutive_failures st)))"
  by (auto simp: call_llm_def log_and_return_def Let_def
           split: prod.splits sum.splits option.splits)

lemma call_llm_to_groq:
  "filter to_groq (snd (snd (call_llm w a st))) =
   filter to_groq (snd (snd (try_groq w (config_of a) (inference (config_of a) (stage a))
               (groq_consecutive_failures st))))"
  using groq_url_neq_together_url
  by (auto simp: call_llm_def log_and_return_def Let_def
           split: prod.splits sum.splits option.splits)

lemma call_llm_groq_outcome:
  "filter (groq_outcome x) (snd (snd (call_llm w a st))) =
   filter (groq_outcome x) (snd (snd (try_groq w (config_of a) (inference (config_of a) (stage a))
               (groq_consecutive_failures st))))"
  using groq_url_neq_together_url
  by (auto simp: call_llm_def log_and_return_def Let_def
           split: prod.splits sum.splits option.splits)

lemma try_groq_bounds:
  assumes "try_groq w cfg p n = (r, n', ev)"
  shows "n' = 0 \<or> n' = n \<or> (n < 3 \<and> n < n' \<and> n' \<le> n + 2 \<and> n' \<le> 3)"
  using assms by (cases rule: try_groq_cases) (auto simp: GROQ_SKIP_THRESHOLD_def)

lemma try_groq_no_success:
  assumes "try_groq w cfg p n = (r, n', ev)"
    and "filter (groq_outcome None) ev = []"
  shows "n + int (length (filter (groq_outcome (Some RateLimitError)) ev)) \<le> n'"
  using assms by (cases rule: try_groq_cases) auto

lemma run_calls_no_success:
  assumes "filter (groq_outcome None) (snd (run_calls cs st)) = []"
  shows "groq_consecutive_failures st +
         int (length (filter (groq_outcome (Some RateLimitError)) (snd (run_calls cs st))))
         \<le> groq_consecutive_failures (fst (run_calls cs st))"
  using assms
proof (induction cs arbitrary: st)
  case Nil
  then show ?case by simp
next
  case (Cons c cs)
  obtain r st1 ev where c1: "call_llm (fst c) (snd c) st = (r, st1, ev)"
    by (cases "call_llm (fst c) (snd c) st") auto
  obtain st2 evs where c2: "run_calls cs st1 = (st2, evs)"
    by (cases "run_calls cs st1") auto
  let ?T = "try_groq (fst c) (config_of (snd c))
              (inference (config_of (snd c)) (stage (snd c))) (groq_consecutive_failures st)"
  obtain r0 n0 ev0 where t: "?T = (r0, n0, ev0)"
    by (cases ?T) auto
  from Cons.prems c1 c2
  have ns1: "filter (groq_outcome None) ev = []" and ns2: "filter (groq_outcome None) evs = []"
    by simp_all
  have n0: "groq_consecutive_failures st1 = n0"
    using call_llm_counter [of "fst c" "snd c" st] c1 t by simp
  have e0: "filter (groq_outcome x) ev = filter (groq_outcome x) ev0" for x
    using call_llm_groq_outcome [of x "fst c" "snd c" st] c1 t by simp
  have step: "groq_consecutive_failures st +
      int (length (filter (groq_outcome (Some RateLimitError)) ev)) \<le> n0"
    using try_groq_no_success [OF t] ns1 e0 by simp
  have rest: "n0 + int (length (filter (groq_outcome (Some RateLimitError)) evs))
      \<le> groq_consecutive_failures st2"
    using Cons.IH [of st1] ns2 c2 n0 by simp
  show ?case
    using step rest c1 c2 by simp
qed

lemma run_calls_fst:
  "fst (run_calls (c # cs) st) = fst (run_calls cs (fst (snd (call_llm (fst c) (snd c) st))))"
  by (simp split: prod.splits)

lemma run_calls_snd:
  "snd (run_calls (c # cs) st) =
   snd (snd (call_llm (fst c) (snd c) st)) @
   snd (run_calls cs (fst (snd (call_llm (fst c) (snd c) st))))"
  by (simp split: prod.splits)

lemma call_llm_skip_events:
  assumes "GROQ_SKIP_THRESHOLD \<le> groq_consecutive_failures st"
  shows "\<exists>r. snd (snd (call_llm w a st)) =
           [Called together_url (fallback_model (config_of a))
              (inference (config_of a) (stage a)) r]"
  using assms
  by (auto simp: call_llm_def try_groq_skip log_and_return_def Let_def split: sum.splits)

lemma call_llm_skip_counter:
  assumes "GROQ_SKIP_THRESHOLD \<le> groq_consecutive_failures st"
  shows "groq_consecutive_failures (fst (snd (call_llm w a st))) = groq_consecutive_failures st"
  using assms by (simp add: call_llm_counter try_groq_skip)

lemma call_llm_skip_no_groq:
  assumes "GROQ_SKIP_THRESHOLD \<le> groq_consecutive_failures st"
  shows "filter to_groq (snd (snd (call_llm w a st))) = []"
  using assms by (simp add: call_llm_to_groq try_groq_skip)

lemma call_llm_step:
  "groq_consecutive_failures (fst (snd (call_llm w a st))) = 0 \<or>
   groq_consecutive_failures (fst (snd (call_llm w a st))) = groq_consecutive_failures st \<or>
   (groq_consecutive_failures st < 3 \<and>
    groq_consecutive_failures st < groq_consecutive_failures (fst (snd (call_llm w a st))) \<and>
    groq_consecutive_failures (fst (snd (call_llm w a st))) \<le> groq_consecutive_failures st + 2 \<and>
    groq_consecutive_failures (fst (snd (call_llm w a st))) \<le> 3)"
proof -
  let ?T = "try_groq w (config_of a) (inference (config_of a) (stage a))
              (groq_consecutive_failures st)"
  obtain r n ev where t: "?T = (r, n, ev)"
    by (cases ?T) auto
  show ?thesis
    using try_groq_bounds [OF t] call_llm_counter [of w a st] t by simp
qed

lemma run_calls_bounded:
  assumes "0 \<le> groq_consecutive_failures st" and "groq_consecutive_failures st \<le> 3"
  shows "0 \<le> groq_consecutive_failures (fst (run_calls cs st)) \<and>
         groq_consecutive_failures (fst (run_calls cs st)) \<le> 3"
  using assms
proof (induction cs arbitrary: st)
  case Nil
  then show ?case by simp
next
  case (Cons c cs)
  obtain r st1 ev where c1: "call_llm (fst c) (snd c) st = (r, st1, ev)"
    by (cases "call_llm (fst c) (snd c) st") auto
  have "0 \<le> groq_consecutive_failures st1 \<and> groq_consecutive_failures st1 \<le> 3"
    using call_llm_step [of "fst c" "snd c" st] c1 Cons.prems by auto
  then have "0 \<le> groq_consecutive_failures (fst (run_calls cs st1)) \<and>
             groq_consecutive_failures (fst (run_calls cs st1)) \<le> 3"
    using Cons.IH [of st1] by simp
  then show ?case
    using c1 by (simp add: run_calls_fst del: run_calls.simps)
qed

lemma run_calls_saturated:
  assumes "groq_consecutive_failures st = 3"
  shows "groq_consecutive_failures (fst (run_calls cs st)) = 3 \<and>
         filter to_groq (snd (run_calls cs st)) = []"
  using assms
proof (induction cs arbitrary: st)
  case Nil
  then show ?case by simp
next
  case (Cons c cs)
  obtain r st1 ev where c1: "call_llm (fst c) (snd c) st = (r, st1, ev)"
    by (cases "call_llm (fst c) (snd c) st") auto
  have thr: "GROQ_SKIP_THRESHOLD \<le> groq_consecutive_failures st"
    using Cons.prems by (simp add: GROQ_SKIP_THRESHOLD_def)
  have n1: "groq_consecutive_failures st1 = 3"
    using call_llm_skip_counter [OF thr, of "fst c" "snd c"] c1 Cons.prems by simp
  have e1: "filter to_groq ev = []"
    using call_llm_skip_no_groq [OF thr, of "fst c" "snd c"] c1 by simp
  from Cons.IH [OF n1] e1 c1 show ?case
    by (simp add: run_calls_fst run_calls_snd del: run_calls.simps)
qed

text \<open>
  Claim C2. A call made while the counter is at least 3 sends no request to Groq: its
  only request goes to Together AI. In particular, after a run that starts with the
  counter at 0 and in which Groq never succeeded and was rate-limited exactly three
  times, the counter is 3 and the next call sends no request to Groq.
\<close>

theorem skip_primary_at_threshold:
  "(3 \<le> groq_consecutive_failures st \<longrightarrow>
      filter to_groq (snd (snd (call_llm w a st))) = [] \<and>
      (\<exists>r. snd (snd (call_llm w a st)) =
             [Called together_url (fallback_model (config_of a))
                (inference (config_of a) (stage a)) r])) \<and>
   (groq_consecutive_failures st0 = 0 \<and>
    filter (groq_outcome None) (snd (run_calls cs st0)) = [] \<and>
    length (filter (groq_outcome (Some RateLimitError)) (snd (run_calls cs st0))) = 3 \<longrightarrow>
      groq_consecutive_failures (fst (run_calls cs st0)) = 3 \<and>
      filter to_groq (snd (snd (call_llm w a (fst (run_calls cs st0))))) = [])"
proof (intro conjI impI)
  assume "3 \<le> groq_consecutive_failures st"
  then have thr: "GROQ_SKIP_THRESHOLD \<le> groq_consecutive_failures st"
    by (simp add: GROQ_SKIP_THRESHOLD_def)
  show "filter to_groq (snd (snd (call_llm w a st))) = []"
    using thr by (rule call_llm_skip_no_groq)
  show "\<exists>r. snd (snd (call_llm w a st)) =
             [Called together_url (fallback_model (config_of a))
                (inference (config_of a) (stage a)) r]"
    using thr by (rule call_llm_skip_events)
next
  assume h: "groq_consecutive_failures st0 = 0 \<and>
    filter (groq_outcome None) (snd (run_calls cs st0)) = [] \<and>
    length (filter (groq_outcome (Some RateLimitError)) (snd (run_calls cs st0))) = 3"
  have lower: "3 \<le> groq_consecutive_failures (fst (run_calls cs st0))"
    using run_calls_no_success [of cs st0] h by simp
  have upper: "groq_consecutive_failures (fst (run_calls cs st0)) \<le> 3"
    using run_calls_bounded [of st0 cs] h by simp
  show three: "groq_consecutive_failures (fst (run_calls cs st0)) = 3"
    using lower upper by simp
  show "filter to_groq (snd (snd (call_llm w a (fst (run_calls cs st0))))) = []"
    using three by (intro call_llm_skip_no_groq) (simp add: GROQ_SKIP_THRESHOLD_def)
qed

theorem skip_primary_at_threshold_witness:
  "groq_consecutive_failures (initial_process empty_fs) = 0 \<and>
   filter (groq_outcome None) (snd (run_calls three_rate_limits (initial_process empty_fs))) = [] \<and>
   length (filter (groq_outcome (Some RateLimitError))
             (snd (run_calls three_rate_limits (initial_process empty_fs)))) = 3 \<and>
   3 \<le> groq_consecutive_failures (fst (run_calls three_rate_limits (initial_process empty_fs))) \<and>
   filter to_groq
     (snd (snd (call_llm (example_world (ok_reply ''YES'') (ok_reply ''YES'') (ok_reply ''NO''))
                  (example_call None)
                  (fst (run_calls three_rate_limits (initial_process empty_fs)))))) = []"
proof -
  let ?st0 = "initial_process empty_fs"
  have h1: "groq_consecutive_failures ?st0 = 0"
    by code_simp
  have h2: "filter (groq_outcome None) (snd (run_calls three_rate_limits ?st0)) = []"
    by code_simp
  have h3: "length (filter (groq_outcome (Some RateLimitError))
             (snd (run_calls three_rate_limits ?st0))) = 3"
    by code_simp
  have h4: "3 \<le> groq_consecutive_failures (fst (run_calls three_rate_limits ?st0))"
    by code_simp
  show ?thesis
    using h1 h2 h3 h4
      skip_primary_at_threshold [of "fst (run_calls three_rate_limits ?st0)"
        "example_world (ok_reply ''YES'') (ok_reply ''YES'') (ok_reply ''NO'')"
        "example_call None" ?st0 three_rate_limits]
    by simp
qed

lemma try_groq_increment:
  assumes "try_groq w cfg p n = (r, n', ev)"
  shows "n' = 0 \<or> n' = n \<or> n' = n + 1 \<or> n' = n + 2"
  using assms by (cases rule: try_groq_cases) auto

lemma call_llm_increment:
  "groq_consecutive_failures (fst (snd (call_llm w a st))) = 0 \<or>
   groq_consecutive_failures (fst (snd (call_llm w a st))) = groq_consecutive_failures st \<or>
   groq_consecutive_failures (fst (snd (call_llm w a st))) = groq_consecutive_failures st + 1 \<or>
   groq_consecutive_failures (fst (snd (call_llm w a st))) = groq_consecutive_failures st + 2"
proof -
  let ?T = "try_groq w (config_of a) (inference (config_of a) (stage a))
              (groq_consecutive_failures st)"
  obtain r n ev where t: "?T = (r, n, ev)"
    by (cases ?T) auto
  show ?thesis
    using try_groq_increment [OF t] call_llm_counter [of w a st] t by simp
qed

text \<open>
  Claim C9. One call leaves the counter at 0, unchanged, or raised by one or by two, and
  leaves it unchanged when it is 3 or more. In a run that starts with the counter at 0
  the counter stays between 0 and 3. Once it is 3 it stays 3 for the rest of the run,
  and no later call sends a request to Groq.
\<close>

theorem counter_saturates_at_threshold:
  "(groq_consecutive_failures (fst (snd (call_llm w a st))) = 0 \<or>
    groq_consecutive_failures (fst (snd (call_llm w a st))) = groq_consecutive_failures st \<or>
    groq_consecutive_failures (fst (snd (call_llm w a st))) = groq_consecutive_failures st + 1 \<or>
    groq_consecutive_failures (fst (snd (call_llm w a st))) = groq_consecutive_failures st + 2) \<and>
   (3 \<le> groq_consecutive_failures st \<longrightarrow>
      groq_consecutive_failures (fst (snd (call_llm w a st))) = groq_consecutive_failures st) \<and>
   (groq_consecutive_failures st0 = 0 \<longrightarrow>
      0 \<le> groq_consecutive_failures (fst (run_calls cs st0)) \<and>
      groq_consecutive_failures (fst (run_calls cs st0)) \<le> 3) \<and>
   (groq_consecutive_failures st3 = 3 \<longrightarrow>
      groq_consecutive_failures (fst (run_calls cs3 st3)) = 3 \<and>
      filter to_groq (snd (run_calls cs3 st3)) = [])"
proof (intro conjI impI)
  show "groq_consecutive_failures (fst (snd (call_llm w a st))) = 0 \<or>
    groq_consecutive_failures (fst (snd (call_llm w a st))) = groq_consecutive_failures st \<or>
    groq_consecutive_failures (fst (snd (call_llm w a st))) = groq_consecutive_failures st + 1 \<or>
    groq_consecutive_failures (fst (snd (call_llm w a st))) = groq_consecutive_failures st + 2"
    by (rule call_llm_increment)
next
  assume "3 \<le> groq_consecutive_failures st"
  then show "groq_consecutive_failures (fst (snd (call_llm w a st))) = groq_consecutive_failures st"
    by (intro call_llm_skip_counter) (simp add: GROQ_SKIP_THRESHOLD_def)
next
  assume z: "groq_consecutive_failures st0 = 0"
  show "0 \<le> groq_consecutive_failures (fst (run_calls cs st0))"
    using run_calls_bounded [of st0 cs] z by simp
  show "groq_consecutive_failures (fst (run_calls cs st0)) \<le> 3"
    using run_calls_bounded [of st0 cs] z by simp
next
  assume t: "groq_consecutive_failures st3 = 3"
  show "groq_consecutive_failures (fst (run_calls cs3 st3)) = 3"
    using run_calls_saturated [OF t, of cs3] by simp
  show "filter to_groq (snd (run_calls cs3 st3)) = []"
    using run_calls_saturated [OF t, of cs3] by simp
qed

theorem counter_saturates_at_threshold_witness:
  "groq_consecutive_failures (initial_process empty_fs) = 0 \<and>
   groq_consecutive_failures (fst (run_calls three_rate_limits (initial_process empty_fs))) = 3 \<and>
   3 \<le> groq_consecutive_failures (fst (run_calls three_rate_limits (initial_process empty_fs))) \<and>
   groq_consecutive_failures
     (fst (run_calls three_rate_limits
        (fst (run_calls three_rate_limits (initial_process empty_fs))))) = 3 \<and>
   filter to_groq
     (snd (run_calls three_rate_limits
        (fst (run_calls three_rate_limits (initial_process empty_fs))))) = []"
proof -
  let ?st0 = "initial_process empty_fs"
  let ?st3 = "fst (run_calls three_rate_limits ?st0)"
  have h1: "groq_consecutive_failures ?st0 = 0"
    by code_simp
  have h2: "groq_consecutive_failures ?st3 = 3"
    by code_simp
  show ?thesis
    using h1 h2
      counter_saturates_at_threshold [of "example_world rate_limited rate_limited (ok_reply ''NO'')"
        "example_call None" ?st3 ?st0 three_rate_limits ?st3 three_rate_limits]
    by simp
qed

lemma call_llm_attempts_groq:
  assumes "groq_consecutive_failures st < GROQ_SKIP_THRESHOLD"
  shows "\<exists>r rest. snd (snd (call_llm w a st)) =
           Called groq_url (model_name (config_of a)) (inference (config_of a) (stage a)) r # rest"
  using assms
  by (auto simp: call_llm_def try_groq_def log_and_return_def Let_def split: sum.splits)

lemma try_groq_success_resets:
  assumes "try_groq w cfg p n = (r, n', ev)" and "filter (groq_outcome None) ev \<noteq> []"
  shows "n' = 0"
  using assms by (cases rule: try_groq_cases) auto

text \<open>
  Claim C6. A call in which a request to Groq succeeded, at the first attempt or at the
  retry, leaves the counter at 0, and the next call, whatever its arguments, starts with
  a request to Groq.
\<close>

theorem primary_success_resets_counter:
  assumes "filter (groq_outcome None) (snd (snd (call_llm w a st))) \<noteq> []"
  shows "groq_consecutive_failures (fst (snd (call_llm w a st))) = 0 \<and>
         (\<exists>r rest. snd (snd (call_llm w' a' (fst (snd (call_llm w a st))))) =
            Called groq_url (model_name (config_of a')) (inference (config_of a') (stage a')) r
              # rest)"
proof -
  let ?T = "try_groq w (config_of a) (inference (config_of a) (stage a))
              (groq_consecutive_failures st)"
  obtain r n ev where t: "?T = (r, n, ev)"
    by (cases ?T) auto
  have "filter (groq_outcome None) ev \<noteq> []"
    using assms call_llm_groq_outcome [of None w a st] t by simp
  then have "n = 0"
    using try_groq_success_resets [OF t] by simp
  then have zero: "groq_consecutive_failures (fst (snd (call_llm w a st))) = 0"
    using call_llm_counter [of w a st] t by simp
  then have "groq_consecutive_failures (fst (snd (call_llm w a st))) < GROQ_SKIP_THRESHOLD"
    by (simp add: GROQ_SKIP_THRESHOLD_def)
  from call_llm_attempts_groq [OF this] zero show ?thesis
    by blast
qed

theorem primary_success_resets_counter_witness:
  "filter (groq_outcome None)
     (snd (snd (call_llm (example_world rate_limited (ok_reply ''YES'') (ok_reply ''NO''))
                  (example_call None)
                  \<lparr>groq_consecutive_failures = 1, fs = empty_fs\<rparr>))) \<noteq> [] \<and>
   groq_consecutive_failures
     (fst (snd (call_llm (example_world rate_limited (ok_reply ''YES'') (ok_reply ''NO''))
                  (example_call None)
                  \<lparr>groq_consecutive_failures = 1, fs = empty_fs\<rparr>))) = 0"
proof -
  have h: "filter (groq_outcome None)
     (snd (snd (call_llm (example_world rate_limited (ok_reply ''YES'') (ok_reply ''NO''))
                  (example_call None)
                  \<lparr>groq_consecutive_failures = 1, fs = empty_fs\<rparr>))) \<noteq> []"
    by code_simp
  show ?thesis
    using h primary_success_resets_counter [OF h] by simp
qed

text \<open>
  Claim C5, as amended. When the first attempt at Groq (not skipped) fails with a timeout
  or an HTTP error, the counter is left as it was, and the call goes on to Together AI
  at once: its requests are that one to Groq and one to Together AI. A call raises a
  counter that is not negative only when its first attempt at Groq was rate-limited: by
  one when no retry is made, by two when the retry is made and fails, in whatever way.
  After a rate-limited first attempt the counter is raised so, or set to 0 when the
  retry succeeds.
\<close>

theorem unavailable_leaves_counter:
  "(groq_consecutive_failures st < 3 \<and> call_provider (groq_first w) = Inl e \<and>
    (e = Timeout \<or> e = HTTPError) \<longrightarrow>
      groq_consecutive_failures (fst (snd (call_llm w a st))) = groq_consecutive_failures st \<and>
      (\<exists>r. snd (snd (call_llm w a st)) =
         [Called groq_url (model_name (config_of a)) (inference (config_of a) (stage a)) (Some e),
          Called together_url (fallback_model (config_of a))
            (inference (config_of a) (stage a)) r])) \<and>
   (0 \<le> groq_consecutive_failures st \<and>
    groq_consecutive_failures st < groq_consecutive_failures (fst (snd (call_llm w a st))) \<longrightarrow>
      groq_consecutive_failures st < 3 \<and>
      call_provider (groq_first w) = Inl RateLimitError \<and>
      (if groq_consecutive_failures st + 1 < 3
       then (\<exists>e2. call_provider (groq_retry w) = Inl e2) \<and>
            groq_consecutive_failures (fst (snd (call_llm w a st))) =
              groq_consecutive_failures st + 2
       else groq_consecutive_failures (fst (snd (call_llm w a st))) =
              groq_consecutive_failures st + 1)) \<and>
   (groq_consecutive_failures st < 3 \<and> call_provider (groq_first w) = Inl RateLimitError \<longrightarrow>
      groq_consecutive_failures (fst (snd (call_llm w a st))) =
        (if groq_consecutive_failures st + 1 < 3
         then (case call_provider (groq_retry w) of
                 Inl e2 \<Rightarrow> groq_consecutive_failures st + 2
               | Inr r \<Rightarrow> 0)
         else groq_consecutive_failures st + 1))"
proof (intro conjI impI)
  assume h: "groq_consecutive_failures st < 3 \<and> call_provider (groq_first w) = Inl e \<and>
    (e = Timeout \<or> e = HTTPError)"
  then show "groq_consecutive_failures (fst (snd (call_llm w a st))) = groq_consecutive_failures st"
    by (auto simp: call_llm_counter try_groq_def GROQ_SKIP_THRESHOLD_def)
  from h show "\<exists>r. snd (snd (call_llm w a st)) =
         [Called groq_url (model_name (config_of a)) (inference (config_of a) (stage a)) (Some e),
          Called together_url (fallback_model (config_of a))
            (inference (config_of a) (stage a)) r]"
    by (auto simp: call_llm_def try_groq_def log_and_return_def Let_def GROQ_SKIP_THRESHOLD_def
             split: sum.splits)
next
  let ?T = "try_groq w (config_of a) (inference (config_of a) (stage a))
              (groq_consecutive_failures st)"
  assume h: "0 \<le> groq_consecutive_failures st \<and>
    groq_consecutive_failures st < groq_consecutive_failures (fst (snd (call_llm w a st)))"
  obtain r n ev where t: "?T = (r, n, ev)"
    by (cases ?T) auto
  have n: "groq_consecutive_failures (fst (snd (call_llm w a st))) = n"
    using call_llm_counter [of w a st] t by simp
  from t have "groq_consecutive_failures st < 3 \<and>
      call_provider (groq_first w) = Inl RateLimitError \<and>
      (if groq_consecutive_failures st + 1 < 3
       then (\<exists>e2. call_provider (groq_retry w) = Inl e2) \<and> n = groq_consecutive_failures st + 2
       else n = groq_consecutive_failures st + 1)"
    using h n by (cases rule: try_groq_cases) (auto simp: GROQ_SKIP_THRESHOLD_def)
  then show "groq_consecutive_failures st < 3"
    and "call_provider (groq_first w) = Inl RateLimitError"
    and "if groq_consecutive_failures st + 1 < 3
       then (\<exists>e2. call_provider (groq_retry w) = Inl e2) \<and>
            groq_consecutive_failures (fst (snd (call_llm w a st))) =
              groq_consecutive_failures st + 2
       else groq_consecutive_failures (fst (snd (call_llm w a st))) =
              groq_consecutive_failures st + 1"
    using n by simp_all
next
  assume "groq_consecutive_failures st < 3 \<and> call_provider (groq_first w) = Inl RateLimitError"
  then show "groq_consecutive_failures (fst (snd (call_llm w a st))) =
        (if groq_consecutive_failures st + 1 < 3
         then (case call_provider (groq_retry w) of
                 Inl e2 \<Rightarrow> groq_consecutive_failures st + 2
               | Inr r \<Rightarrow> 0)
         else groq_consecutive_failures st + 1)"
    by (auto simp: call_llm_counter try_groq_def GROQ_SKIP_THRESHOLD_def split: sum.splits)
qed

theorem unavailable_leaves_counter_witness:
  "groq_consecutive_failures \<lparr>groq_consecutive_failures = 2, fs = empty_fs\<rparr> < 3 \<and>
   call_provider (groq_first (example_world TimedOut rate_limited (ok_reply ''YES''))) = Inl Timeout \<and>
   groq_consecutive_failures
     (fst (snd (call_llm (example_world TimedOut rate_limited (ok_reply ''YES''))
                  (example_call None) \<lparr>groq_consecutive_failures = 2, fs = empty_fs\<rparr>))) = 2 \<and>
   0 \<le> groq_consecutive_failures (initial_process empty_fs) \<and>
   groq_consecutive_failures (initial_process empty_fs) <
     groq_consecutive_failures
       (fst (snd (call_llm (example_world rate_limited rate_limited (ok_reply ''YES''))
                    (example_call None) (initial_process empty_fs)))) \<and>
   call_provider (groq_first (example_world rate_limited rate_limited (ok_reply ''YES''))) =
     Inl RateLimitError \<and>
   groq_consecutive_failures
     (fst (snd (call_llm (example_world rate_limited rate_limited (ok_reply ''YES''))
                  (example_call None) (initial_process empty_fs)))) = 2"
proof -
  let ?wA = "example_world TimedOut rate_limited (ok_reply ''YES'')"
  let ?stA = "\<lparr>groq_consecutive_failures = 2, fs = empty_fs\<rparr>"
  let ?wB = "example_world rate_limited rate_limited (ok_reply ''YES'')"
  let ?stB = "initial_process empty_fs"
  let ?a = "example_call None"
  have a1: "groq_consecutive_failures ?stA < 3"
    by simp
  have a2: "call_provider (groq_first ?wA) = Inl Timeout"
    by code_simp
  have b0: "groq_consecutive_failures ?stB = 0"
    by code_simp
  have b1: "groq_consecutive_failures ?stB <
            groq_consecutive_failures (fst (snd (call_llm ?wB ?a ?stB)))"
    by code_simp
  have b2: "call_provider (groq_first ?wB) = Inl RateLimitError"
    by code_simp
  have b3: "call_provider (groq_retry ?wB) = Inl RateLimitError"
    by code_simp
  have cA: "groq_consecutive_failures (fst (snd (call_llm ?wA ?a ?stA))) = 2"
    using unavailable_leaves_counter [of ?stA ?wA Timeout ?a, THEN conjunct1] a1 a2 by simp
  have cB: "groq_consecutive_failures (fst (snd (call_llm ?wB ?a ?stB))) = 2"
    using unavailable_leaves_counter [of ?stB ?wB Timeout ?a, THEN conjunct2, THEN conjunct1]
      b0 b1 by simp
  have cB': "groq_consecutive_failures (fst (snd (call_llm ?wB ?a ?stB))) = 2"
    using unavailable_leaves_counter [of ?stB ?wB Timeout ?a, THEN conjunct2, THEN conjunct2]
      b0 b2 b3 by simp
  show ?thesis
    using a1 a2 b0 b1 b2 cA cB cB' by simp
qed

text \<open>
  Claim C5, as stated, fails: with the counter at 2, a timeout at the first attempt leaves
  it at 2, while a rate-limit failure at the first attempt raises it to 3.
\<close>

theorem timeout_not_counted_counterexample:
  "call_provider (groq_first (example_world TimedOut rate_limited (ok_reply ''YES''))) = Inl Timeout \<and>
   call_provider (groq_first (example_world rate_limited rate_limited (ok_reply ''YES''))) =
     Inl RateLimitError \<and>
   groq_consecutive_failures
     (fst (snd (call_llm (example_world TimedOut rate_limited (ok_reply ''YES''))
                  (example_call None) \<lparr>groq_consecutive_failures = 2, fs = empty_fs\<rparr>))) = 2 \<and>
   groq_consecutive_failures
     (fst (snd (call_llm (example_world rate_limited rate_limited (ok_reply ''YES''))
                  (example_call None) \<lparr>groq_consecutive_failures = 2, fs = empty_fs\<rparr>))) = 3"
  by code_simp

text \<open>
  How a call ends, by the outcome of its attempts at Groq. A failure of the first attempt
  that the first \<open>try\<close> catches, and any failure of the retry, leads to the request to
  Together AI, and the call ends as that request ends; a result labelled \<open>groq\<close> is the
  reply to one of the two requests to Groq.
\<close>

lemma call_llm_outcome:
  "fst (call_llm w a st) =
     (case fst (try_groq w (config_of a) (inference (config_of a) (stage a))
                  (groq_consecutive_failures st)) of
        Inl e \<Rightarrow> Inl e
      | Inr None \<Rightarrow>
          map_sum (\<lambda>e. e) (\<lambda>r. with_provider r ''together'') (call_provider (together w))
      | Inr (Some r) \<Rightarrow> Inr (with_provider r ''groq''))"
  by (auto simp: call_llm_def log_and_return_def Let_def
           split: prod.splits sum.splits option.splits)

lemma call_llm_events:
  "\<exists>rest. snd (snd (call_llm w a st)) =
     snd (snd (try_groq w (config_of a) (inference (config_of a) (stage a))
                 (groq_consecutive_failures st))) @ rest \<and>
     (fst (try_groq w (config_of a) (inference (config_of a) (stage a))
             (groq_consecutive_failures st)) = Inr None \<longrightarrow>
      (\<exists>r. rest = [Called together_url (fallback_model (config_of a))
                     (inference (config_of a) (stage a)) r]))"
  by (auto simp: call_llm_def log_and_return_def Let_def
           split: prod.splits sum.splits option.splits)

lemma caught_failures_fall_back:
  assumes "groq_consecutive_failures st < 3"
    and "call_provider (groq_first w) = Inl e"
    and "caught_first e"
  shows "(e = RateLimitError \<and> groq_consecutive_failures st + 1 < 3 \<and>
          (\<exists>r. call_provider (groq_retry w) = Inr r \<and>
                fst (call_llm w a st) = Inr (with_provider r ''groq''))) \<or>
         (fst (call_llm w a st) =
            map_sum (\<lambda>e. e) (\<lambda>r. with_provider r ''together'') (call_provider (together w)) \<and>
          (\<exists>r. last (snd (snd (call_llm w a st))) =
                Called together_url (fallback_model (config_of a))
                  (inference (config_of a) (stage a)) r))"
proof -
  let ?T = "try_groq w (config_of a) (inference (config_of a) (stage a))
              (groq_consecutive_failures st)"
  obtain r n ev where t: "?T = (r, n, ev)"
    by (cases ?T) auto
  from call_llm_events [of w a st] obtain rest where
    ev: "snd (snd (call_llm w a st)) = ev @ rest" and
    tg: "r = Inr None \<longrightarrow> (\<exists>x. rest = [Called together_url (fallback_model (config_of a))
                     (inference (config_of a) (stage a)) x])"
    using t by auto
  from t show ?thesis
  proof (cases rule: try_groq_cases)
    case skip
    then show ?thesis using assms by (simp add: GROQ_SKIP_THRESHOLD_def)
  next
    case (first_ok res)
    then show ?thesis using assms by simp
  next
    case (retry_ok res)
    then show ?thesis
      using assms t by (simp add: call_llm_outcome GROQ_SKIP_THRESHOLD_def)
  next
    case (retry_failed e2)
    then show ?thesis
      using t ev tg by (auto simp: call_llm_outcome)
  next
    case no_retry
    then show ?thesis
      using t ev tg by (auto simp: call_llm_outcome)
  next
    case (unavailable e')
    then show ?thesis
      using t ev tg by (auto simp: call_llm_outcome)
  next
    case (uncaught e')
    then show ?thesis
      using assms by (simp add: caught_first_def)
  qed
qed

lemma retry_failure_falls_back:
  assumes "groq_consecutive_failures st + 1 < 3"
    and "call_provider (groq_first w) = Inl RateLimitError"
    and "call_provider (groq_retry w) = Inl e2"
  shows "fst (call_llm w a st) =
           map_sum (\<lambda>e. e) (\<lambda>r. with_provider r ''together'') (call_provider (together w))"
  using assms
  by (simp add: call_llm_outcome try_groq_def GROQ_SKIP_THRESHOLD_def)

text \<open>
  Claim C1 at a connection failure of the first attempt at Groq: it is a
  \<open>requests.exceptions.ConnectionError\<close>, which the first \<open>try\<close> does not catch. The call
  raises it after that single request, without asking Together AI, although the request
  to Together AI would have succeeded; the \<open>try\<close> around the retry, two lines below,
  catches every exception.
\<close>

theorem connection_error_not_absorbed:
  "call_provider (groq_first (example_world ConnectionFailed (ok_reply ''YES'') (ok_reply ''YES''))) =
     Inl ConnectionError \<and>
   call_provider (together (example_world ConnectionFailed (ok_reply ''YES'') (ok_reply ''YES''))) =
     Inr \<lparr>text_of = ''YES'', tokens_input = 120, tokens_output = 8, latency_ms = 250\<rparr> \<and>
   fst (call_llm (example_world ConnectionFailed (ok_reply ''YES'') (ok_reply ''YES''))
          (example_call None) (initial_process empty_fs)) = Inl ConnectionError \<and>
   snd (snd (call_llm (example_world ConnectionFailed (ok_reply ''YES'') (ok_reply ''YES''))
          (example_call None) (initial_process empty_fs))) =
     [Called groq_url (model_name example_config) example_params (Some ConnectionError)]"
  by code_simp

section \<open>Properties of the audit trail\<close>

lemma call_llm_logged:
  assumes "fst (call_llm w a st) = Inr res"
  shows "\<exists>result.
           res = with_provider result (provider res) \<and>
           fs (fst (snd (call_llm w a st))) =
             AuditLogger_log (audit_logger a)
               (log_record (now w) (stage a) (article_id a)
                  (py_or (decision_label a) (take 200 (text_of result))) 1
                  (hash_prompt (sha256_hexdigest w) (prompt a)) (provider res)
                  (tokens_input result) (tokens_output result) (latency_ms result)
                  (text_of result) None)
               (fs st)"
  using assms
  by (auto simp: call_llm_def log_and_return_def with_provider_def Let_def
           split: prod.splits sum.splits option.splits)

lemma call_llm_failed_fs:
  assumes "fst (call_llm w a st) = Inl e"
  shows "fs (fst (snd (call_llm w a st))) = fs st"
  using assms
  by (auto simp: call_llm_def log_and_return_def Let_def
           split: prod.splits sum.splits option.splits)

lemma file_content_log:
  "file_content (AuditLogger_log logger record f) p =
     (if p = path logger then file_content f p @ [record] else file_content f p)"
  by (simp add: AuditLogger_log_def file_content_def)

lemma files_log_other:
  "p \<noteq> path logger \<Longrightarrow> files (AuditLogger_log logger record f) p = files f p"
  by (simp add: AuditLogger_log_def)

lemma log_record_fields:
  "map_of (log_record n m i d c h p ti to l r None) ''tokens_in'' = Some (JInt ti)"
  "map_of (log_record n m i d c h p ti to l r None) ''tokens_out'' = Some (JInt to)"
  "map_of (log_record n m i d c h p ti to l r None) ''latency_ms'' = Some (JNum (py_round2 l))"
  "map_of (log_record n m i d c h p ti to l r None) ''confidence'' = Some (JNum c)"
  "map_of (log_record n m i d c h p ti to l r None) ''decision'' = Some (JStr d)"
  "map_of (log_record n m i d c h p ti to l r None) ''raw_response'' = Some (JStr r)"
  "map_of (log_record n m i d c h p ti to l r None) ''provider'' = Some (JStr p)"
  by (simp_all add: log_record_def)

lemma round_half_even_close:
  "\<bar>of_int (round_half_even y) - y\<bar> \<le> 1 / 2"
proof -
  define f where "f = \<lfloor>y\<rfloor>"
  define d where "d = y - of_int f"
  have d0: "0 \<le> d" and d1: "d < 1"
    unfolding d_def f_def by linarith+
  have y: "y = of_int f + d"
    by (simp add: d_def)
  have r: "round_half_even y =
             (if d < 1 / 2 then f else if 1 / 2 < d then f + 1 else if even f then f else f + 1)"
    by (simp add: round_half_even_def Let_def f_def d_def)
  show ?thesis
  proof (cases "d < 1 / 2")
    case True
    then have "of_int (round_half_even y) - y = - d"
      using r by (simp add: d_def)
    then show ?thesis
      using d0 True by simp
  next
    case False
    then have "round_half_even y = f + 1 \<or> (d = 1 / 2 \<and> round_half_even y = f)"
      by (auto simp: r)
    then have "of_int (round_half_even y) - y = 1 - d \<or>
               (d = 1 / 2 \<and> of_int (round_half_even y) - y = - d)"
      by (auto simp: d_def)
    then show ?thesis
      using False d1 by auto
  qed
qed

lemma py_round2_close:
  "\<bar>py_round2 x - x\<bar> \<le> 1 / 200 \<and> (\<exists>k :: int. py_round2 x = of_int k / 100)"
proof -
  have "\<bar>of_int (round_half_even (x * 100)) - x * 100\<bar> \<le> 1 / 2"
    by (rule round_half_even_close)
  then have "\<bar>(of_int (round_half_even (x * 100)) - x * 100) / 100\<bar> \<le> (1 / 2) / 100"
    by (simp add: divide_le_cancel)
  moreover have "(of_int (round_half_even (x * 100)) - x * 100) / 100 = py_round2 x - x"
    by (simp add: py_round2_def diff_divide_distrib)
  ultimately have "\<bar>py_round2 x - x\<bar> \<le> 1 / 200"
    by simp
  then show ?thesis
    by (auto simp: py_round2_def)
qed

text \<open>
  Claim C4. A call that returns a result appends exactly one record to the file of its
  logger and changes no other file. The record's \<open>tokens_in\<close> and \<open>tokens_out\<close> are the
  counters of the returned result, and its \<open>latency_ms\<close> is the returned latency rounded
  to two decimal places: a multiple of \<open>0.01\<close> at most \<open>0.005\<close> away from it.
\<close>

theorem successful_call_appends_one_record:
  assumes "fst (call_llm w a st) = Inr res"
  shows "\<exists>record.
           file_content (fs (fst (snd (call_llm w a st)))) (path (audit_logger a)) =
             file_content (fs st) (path (audit_logger a)) @ [record] \<and>
           map_of record ''tokens_in'' = Some (JInt (tokens_input res)) \<and>
           map_of record ''tokens_out'' = Some (JInt (tokens_output res)) \<and>
           map_of record ''latency_ms'' = Some (JNum (py_round2 (latency_ms res))) \<and>
           \<bar>py_round2 (latency_ms res) - latency_ms res\<bar> \<le> 1 / 200 \<and>
           (\<exists>k :: int. py_round2 (latency_ms res) = of_int k / 100) \<and>
           (\<forall>p. p \<noteq> path (audit_logger a) \<longrightarrow>
                files (fs (fst (snd (call_llm w a st)))) p = files (fs st) p)"
proof -
  from call_llm_logged [OF assms] obtain result where
    res: "res = with_provider result (provider res)" and
    logged: "fs (fst (snd (call_llm w a st))) =
             AuditLogger_log (audit_logger a)
               (log_record (now w) (stage a) (article_id a)
                  (py_or (decision_label a) (take 200 (text_of result))) 1
                  (hash_prompt (sha256_hexdigest w) (prompt a)) (provider res)
                  (tokens_input result) (tokens_output result) (latency_ms result)
                  (text_of result) None)
               (fs st)"
    by blast
  have same: "tokens_input res = tokens_input result" "tokens_output res = tokens_output result"
    "latency_ms res = latency_ms result"
    by (subst res, simp add: with_provider_def)+
  show ?thesis
    using py_round2_close [of "latency_ms res"]
    by (simp add: logged file_content_log files_log_other log_record_fields same)
qed

theorem successful_call_appends_one_record_witness:
  "fst (call_llm (example_world (slow_reply ''  YES '') rate_limited rate_limited)
          (example_call None) (initial_process empty_fs)) =
     Inr \<lparr>text_of = ''YES'', tokens_input = 120, tokens_output = 0,
          latency_ms = 1234567 / 1000, provider = ''groq''\<rparr> \<and>
   (\<exists>record.
      file_content
        (fs (fst (snd (call_llm (example_world (slow_reply ''  YES '') rate_limited rate_limited)
                        (example_call None) (initial_process empty_fs)))))
        ''outputs/audit_log.jsonl'' = [record] \<and>
      map_of record ''tokens_in'' = Some (JInt 120) \<and>
      map_of record ''tokens_out'' = Some (JInt 0) \<and>
      map_of record ''latency_ms'' = Some (JNum (123457 / 100)))"
proof -
  let ?w = "example_world (slow_reply ''  YES '') rate_limited rate_limited"
  have h: "fst (call_llm ?w (example_call None) (initial_process empty_fs)) =
     Inr \<lparr>text_of = ''YES'', tokens_input = 120, tokens_output = 0,
          latency_ms = 1234567 / 1000, provider = ''groq''\<rparr>"
    by code_simp
  have p: "path (audit_logger (example_call None)) = ''outputs/audit_log.jsonl''"
    by code_simp
  have e: "file_content (fs (initial_process empty_fs)) ''outputs/audit_log.jsonl'' = []"
    by code_simp
  have r: "py_round2 (1234567 / 1000) = 123457 / 100"
    by code_simp
  from successful_call_appends_one_record [OF h] show ?thesis
    using h by (auto simp: p e r)
qed

lemma py_or_cases:
  "py_or l t = (case l of None \<Rightarrow> t | Some s \<Rightarrow> if s = [] then t else s)"
  by (simp add: py_or_def)

text \<open>
  Claim C10, as amended. The record that a successful call appends has confidence \<open>1.0\<close>,
  and its decision is the caller's label when that is a non-empty string, and otherwise
  (no label, or the empty string) the first 200 characters of the response text. What
  \<open>triage_article\<close> leaves in the log is the entry written by its \<open>call_llm\<close>, before the
  response is parsed: its confidence is \<open>1.0\<close> and its decision the first 200 characters
  of the response, while the returned dict carries the parsed decision and confidence.
\<close>

theorem audit_record_ignores_parser:
  "(fst (call_llm w a st) = Inr res \<longrightarrow>
      (\<exists>record.
         file_content (fs (fst (snd (call_llm w a st)))) (path (audit_logger a)) =
           file_content (fs st) (path (audit_logger a)) @ [record] \<and>
         map_of record ''confidence'' = Some (JNum 1) \<and>
         map_of record ''decision'' =
           Some (JStr (case decision_label a of
                         None \<Rightarrow> take 200 (text_of res)
                       | Some l \<Rightarrow> if l = [] then take 200 (text_of res) else l)))) \<and>
   (fst (triage_article lp w now2 title abstract aid criteria cfg logger st) = Inr d \<longrightarrow>
      (\<exists>record t.
         file_content
           (fs (fst (snd (triage_article lp w now2 title abstract aid criteria cfg logger st))))
           (path logger) = file_content (fs st) (path logger) @ [record] \<and>
         map_of record ''raw_response'' = Some (JStr t) \<and>
         map_of record ''confidence'' = Some (JNum 1) \<and>
         map_of record ''decision'' = Some (JStr (take 200 t)) \<and>
         map_of d ''decision'' = map_option JStr (parsed_decision t) \<and>
         map_of d ''confidence'' = map_option JNum (parsed_confidence t)))"
proof (intro conjI impI)
  assume ok: "fst (call_llm w a st) = Inr res"
  from call_llm_logged [OF ok] obtain result where
    res: "res = with_provider result (provider res)" and
    logged: "fs (fst (snd (call_llm w a st))) =
             AuditLogger_log (audit_logger a)
               (log_record (now w) (stage a) (article_id a)
                  (py_or (decision_label a) (take 200 (text_of result))) 1
                  (hash_prompt (sha256_hexdigest w) (prompt a)) (provider res)
                  (tokens_input result) (tokens_output result) (latency_ms result)
                  (text_of result) None)
               (fs st)"
    by blast
  have same: "text_of res = text_of result"
    by (subst res, simp add: with_provider_def)
  show "\<exists>record.
         file_content (fs (fst (snd (call_llm w a st)))) (path (audit_logger a)) =
           file_content (fs st) (path (audit_logger a)) @ [record] \<and>
         map_of record ''confidence'' = Some (JNum 1) \<and>
         map_of record ''decision'' =
           Some (JStr (case decision_label a of
                         None \<Rightarrow> take 200 (text_of res)
                       | Some l \<Rightarrow> if l = [] then take 200 (text_of res) else l))"
    by (simp add: logged file_content_log log_record_fields same py_or_cases split: option.splits)
next
  let ?R = "triage_article lp w now2 title abstract aid criteria cfg logger st"
  assume ok: "fst ?R = Inr d"
  obtain p where p: "lp ''triage'' [(''criteria'', criteria_text criteria), (''title'', title),
              (''abstract'', abstract)] = Inr p"
    using ok by (auto simp: triage_article_def split: sum.splits)
  let ?a = "\<lparr>prompt = p, config_of = cfg, stage = ''triage'', audit_logger = logger,
              article_id = aid, decision_label = None\<rparr>"
  obtain response where r: "fst (call_llm w ?a st) = Inr response"
    using ok p by (auto simp: triage_article_def split: sum.splits prod.splits)
  have st': "fs (fst (snd ?R)) = fs (fst (snd (call_llm w ?a st)))"
    using p by (auto simp: triage_article_def split: sum.splits prod.splits option.splits)
  obtain dec jus con where parsed: "parse_decision (text_of response) = Some (dec, jus, con)"
    using parse_decision_total [of "text_of response"] by (cases "parse_decision (text_of response)") auto
  have dd: "map_of d ''decision'' = Some (JStr dec)" "map_of d ''confidence'' = Some (JNum con)"
    using ok p r parsed
    by (auto simp: triage_article_def split: sum.splits prod.splits option.splits)
  from call_llm_logged [OF r] obtain result where
    res: "response = with_provider result (provider response)" and
    logged: "fs (fst (snd (call_llm w ?a st))) =
             AuditLogger_log logger
               (log_record (now w) ''triage'' aid
                  (py_or None (take 200 (text_of result))) 1
                  (hash_prompt (sha256_hexdigest w) p) (provider response)
                  (tokens_input result) (tokens_output result) (latency_ms result)
                  (text_of result) None)
               (fs st)"
    by auto
  have same: "text_of response = text_of result"
    by (subst res, simp add: with_provider_def)
  let ?entry = "log_record (now w) ''triage'' aid (take 200 (text_of response)) 1
                   (hash_prompt (sha256_hexdigest w) p) (provider response)
                   (tokens_input result) (tokens_output result) (latency_ms result)
                   (text_of response) None"
  have content: "file_content (fs (fst (snd ?R))) (path logger) =
                 file_content (fs st) (path logger) @ [?entry]"
    by (simp add: st' logged file_content_log same [symmetric] py_or_cases)
  have "file_content (fs (fst (snd ?R))) (path logger) =
           file_content (fs st) (path logger) @ [?entry] \<and>
         map_of ?entry ''raw_response'' = Some (JStr (text_of response)) \<and>
         map_of ?entry ''confidence'' = Some (JNum 1) \<and>
         map_of ?entry ''decision'' = Some (JStr (take 200 (text_of response))) \<and>
         map_of d ''decision'' = map_option JStr (parsed_decision (text_of response)) \<and>
         map_of d ''confidence'' = map_option JNum (parsed_confidence (text_of response))"
    using content
    by (simp add: log_record_fields dd parsed_decision_def parsed_confidence_def parsed)
  then show "\<exists>record t.
         file_content (fs (fst (snd ?R))) (path logger) =
           file_content (fs st) (path logger) @ [record] \<and>
         map_of record ''raw_response'' = Some (JStr t) \<and>
         map_of record ''confidence'' = Some (JNum 1) \<and>
         map_of record ''decision'' = Some (JStr (take 200 t)) \<and>
         map_of d ''decision'' = map_option JStr (parsed_decision t) \<and>
         map_of d ''confidence'' = map_option JNum (parsed_confidence t)"
    by blast
qed

theorem audit_record_ignores_parser_witness:
  "fst (call_llm (example_world (ok_reply ''YES'') rate_limited rate_limited)
          (example_call (Some ''include'')) (initial_process empty_fs)) =
     Inr \<lparr>text_of = ''YES'', tokens_input = 120, tokens_output = 8,
          latency_ms = 250, provider = ''groq''\<rparr> \<and>
   fst (triage_article example_load_prompt
          (example_world rate_limited TimedOut (ok_reply ''Probably not relevant. no''))
          ''2025-01-01T00:00:05+00:00'' ''A title'' ''An abstract'' ''A1'' [''has a prototype'']
          example_config example_logger (initial_process empty_fs)) =
     Inr [(''article_id'', JStr ''A1''), (''decision'', JStr ''NO''),
          (''justification'', JStr ''Probably not relevant. no''),
          (''confidence'', JNum (4 / 5)), (''tokens_used'', JInt 128),
          (''latency_ms'', JNum 250), (''provider'', JStr ''together''),
          (''timestamp'', JStr ''2025-01-01T00:00:05+00:00'')] \<and>
   (\<exists>record.
      file_content
        (fs (fst (snd (call_llm (example_world (ok_reply ''YES'') rate_limited rate_limited)
                        (example_call (Some ''include'')) (initial_process empty_fs)))))
        ''outputs/audit_log.jsonl'' = [record] \<and>
      map_of record ''confidence'' = Some (JNum 1) \<and>
      map_of record ''decision'' = Some (JStr ''include'')) \<and>
   (\<exists>record t.
      file_content
        (fs (fst (snd (triage_article example_load_prompt
          (example_world rate_limited TimedOut (ok_reply ''Probably not relevant. no''))
          ''2025-01-01T00:00:05+00:00'' ''A title'' ''An abstract'' ''A1'' [''has a prototype'']
          example_config example_logger (initial_process empty_fs)))))
        ''outputs/audit_log.jsonl'' = [record] \<and>
      map_of record ''confidence'' = Some (JNum 1) \<and>
      map_of record ''decision'' = Some (JStr (take 200 t)) \<and>
      parsed_decision t = Some ''NO'' \<and>
      parsed_confidence t = Some (4 / 5))"
proof -
  let ?w = "example_world (ok_reply ''YES'') rate_limited rate_limited"
  let ?a = "example_call (Some ''include'')"
  let ?st = "initial_process empty_fs"
  let ?res = "\<lparr>text_of = ''YES'', tokens_input = 120, tokens_output = 8,
          latency_ms = 250, provider = ''groq''\<rparr>"
  let ?w2 = "example_world rate_limited TimedOut (ok_reply ''Probably not relevant. no'')"
  let ?d = "[(''article_id'', JStr ''A1''), (''decision'', JStr ''NO''),
          (''justification'', JStr ''Probably not relevant. no''),
          (''confidence'', JNum (4 / 5)), (''tokens_used'', JInt 128),
          (''latency_ms'', JNum 250), (''provider'', JStr ''together''),
          (''timestamp'', JStr ''2025-01-01T00:00:05+00:00'')]"
  have h1: "fst (call_llm ?w ?a ?st) = Inr ?res"
    by code_simp
  have h2: "fst (triage_article example_load_prompt ?w2 ''2025-01-01T00:00:05+00:00''
              ''A title'' ''An abstract'' ''A1'' [''has a prototype''] example_config
              example_logger ?st) = Inr ?d"
    by code_simp
  have p: "path (audit_logger ?a) = ''outputs/audit_log.jsonl''"
    "path example_logger = ''outputs/audit_log.jsonl''"
    "decision_label ?a = Some ''include''"
    by code_simp+
  have e: "file_content (fs ?st) ''outputs/audit_log.jsonl'' = []"
    by code_simp
  have c1: "\<exists>record.
      file_content (fs (fst (snd (call_llm ?w ?a ?st)))) ''outputs/audit_log.jsonl'' = [record] \<and>
      map_of record ''confidence'' = Some (JNum 1) \<and>
      map_of record ''decision'' = Some (JStr ''include'')"
    using audit_record_ignores_parser [where w = ?w and a = ?a and st = ?st and res = ?res,
        THEN conjunct1, THEN mp, OF h1]
    by (simp add: p e)
  let ?R = "triage_article example_load_prompt ?w2 ''2025-01-01T00:00:05+00:00''
              ''A title'' ''An abstract'' ''A1'' [''has a prototype''] example_config
              example_logger ?st"
  from audit_record_ignores_parser [where w = ?w2 and st = ?st and lp = example_load_prompt
        and logger = example_logger and d = ?d, THEN conjunct2, THEN mp, OF h2]
  obtain entry t where
    f: "file_content (fs (fst (snd ?R))) (path example_logger) =
        file_content (fs ?st) (path example_logger) @ [entry]" and
    cf: "map_of entry ''confidence'' = Some (JNum 1)" and
    dc: "map_of entry ''decision'' = Some (JStr (take 200 t))" and
    pd: "map_of ?d ''decision'' = map_option JStr (parsed_decision t)" and
    pc: "map_of ?d ''confidence'' = map_option JNum (parsed_confidence t)"
    by blast
  have pd': "parsed_decision t = Some ''NO''"
    using pd by (cases "parsed_decision t") simp_all
  have pc': "parsed_confidence t = Some (4 / 5)"
    using pc by (cases "parsed_confidence t") simp_all
  have f': "file_content (fs (fst (snd ?R))) ''outputs/audit_log.jsonl'' = [entry]"
    using f by (simp add: p e)
  have c2: "\<exists>record t.
      file_content (fs (fst (snd ?R))) ''outputs/audit_log.jsonl'' = [record] \<and>
      map_of record ''confidence'' = Some (JNum 1) \<and>
      map_of record ''decision'' = Some (JStr (take 200 t)) \<and>
      parsed_decision t = Some ''NO'' \<and>
      parsed_confidence t = Some (4 / 5)"
    using f' cf dc pd' pc' by blast
  show ?thesis
    by (rule conjI [OF h1 conjI [OF h2 conjI [OF c1 c2]]])
qed

text \<open>
  Claim C10, as stated, fails for the label \<open>""\<close>: Python's \<open>or\<close> takes the empty string
  for false, so the record's decision is the response text \<open>YES\<close>, not the label.
\<close>

theorem empty_label_counterexample:
  "decision_label (example_call (Some [])) = Some [] \<and>
   fst (call_llm (example_world (ok_reply ''YES'') rate_limited rate_limited)
          (example_call (Some [])) (initial_process empty_fs)) =
     Inr \<lparr>text_of = ''YES'', tokens_input = 120, tokens_output = 8,
          latency_ms = 250, provider = ''groq''\<rparr> \<and>
   map_of
     (last (file_content
        (fs (fst (snd (call_llm (example_world (ok_reply ''YES'') rate_limited rate_limited)
                        (example_call (Some [])) (initial_process empty_fs)))))
        ''outputs/audit_log.jsonl''))
     ''decision'' = Some (JStr ''YES'') \<and>
   JStr ''YES'' \<noteq> JStr []"
  by code_simp

section \<open>Opening the audit log\<close>

text \<open>
  \<open>os.makedirs\<close> and \<open>open\<close> in append mode leave the content of every existing file as it
  is, so a logger that opens successfully keeps the records already in its file.
\<close>

lemma mkdir_files: "files (snd (mkdir f name)) = files f"
  by (simp add: mkdir_def split: option.splits)

lemma makedirs_leaf_files: "files (snd (makedirs_leaf f name b)) = files f"
  using mkdir_files [of f name]
  by (auto simp: makedirs_leaf_def split: prod.splits option.splits)

lemma makedirs_files: "files (snd (makedirs f name b)) = files f"
proof (induction f name b rule: makedirs.induct)
  case (1 f name b)
  show ?case
  proof (cases "fst (makedirs_split name) \<noteq> [] \<and> snd (makedirs_split name) \<noteq> [] \<and>
         \<not> exists f (fst (makedirs_split name))")
    case True
    obtain r f' where rec: "makedirs f (fst (makedirs_split name)) b = (r, f')"
      by (cases "makedirs f (fst (makedirs_split name)) b") auto
    have "files f' = files f"
      using "1.IH" True rec by simp
    then show ?thesis
      using True rec makedirs_leaf_files [of f' name b]
      by (subst makedirs.simps) (simp del: makedirs.simps)
  next
    case False
    then show ?thesis
      using makedirs_leaf_files [of f name b]
      by (subst makedirs.simps) (auto simp del: makedirs.simps)
  qed
qed

lemma open_append_files:
  assumes "open_append f p = (None, f')"
  shows "p \<in> dom (files f') \<and> (\<forall>q. q \<in> dom (files f) \<longrightarrow> files f' q = files f q)"
  using assms
  by (auto simp: open_append_def split: if_splits option.splits)

lemma AuditLogger_init_preserves:
  assumes "AuditLogger_init f p = (Inr logger, f')"
  shows "path logger = p \<and> p \<in> dom (files f') \<and>
         (\<forall>q. q \<in> dom (files f) \<longrightarrow> files f' q = files f q)"
proof -
  obtain f1 where m: "makedirs f (dirname p) True = (None, f1)"
    using assms by (auto simp: AuditLogger_init_def split: prod.splits option.splits)
  have o: "open_append f1 p = (None, f')" and l: "path logger = p"
    using assms m by (auto simp: AuditLogger_init_def split: prod.splits option.splits)
  have "files f1 = files f"
    using makedirs_files [of f "dirname p" True] m by simp
  then show ?thesis
    using open_append_files [OF o] l by simp
qed

lemma AuditLogger_init_default_path:
  "fst (AuditLogger_init empty_fs ''outputs/audit_log.jsonl'') = Inr \<lparr>path = ''outputs/audit_log.jsonl''\<rparr> \<and>
   dirs (snd (AuditLogger_init empty_fs ''outputs/audit_log.jsonl'')) = {''outputs''} \<and>
   files (snd (AuditLogger_init empty_fs ''outputs/audit_log.jsonl'')) ''outputs/audit_log.jsonl'' = Some []"
  by (simp add: AuditLogger_init_def dirname_def makedirs.simps makedirs_split_def
        posix_split_def rstrip_slash_def exists_def isdir_def makedirs_leaf_def mkdir_def
        parent_error_def empty_fs_def open_append_def)

text \<open>
  Claim C8 at the path \<open>audit.jsonl\<close>, which has no directory part: \<open>os.path.dirname\<close>
  gives the empty string, \<open>os.makedirs("", exist_ok=True)\<close> raises \<open>FileNotFoundError\<close>, and
  the file is never opened, whatever the file system holds.
\<close>

theorem AuditLogger_init_bare_filename:
  "dirname ''audit.jsonl'' = [] \<and>
   AuditLogger_init f ''audit.jsonl'' = (Inl FileNotFoundError, f)"
  by (simp add: AuditLogger_init_def dirname_def makedirs.simps makedirs_split_def
        posix_split_def rstrip_slash_def exists_def isdir_def makedirs_leaf_def mkdir_def
        parent_error_def)

end
